theory Spec2Isabelle
  imports Main "HOL-Library.Char_ord" "HOL-Library.List_Lexorder"
begin

section \<open>JavaScript values\<close>

text \<open>
  The client and the generator scripts work on dynamically typed JavaScript values: request
  parameters, parsed JSON bodies, schema documents. A value is one of the JSON shapes plus
  \<open>undefined\<close>. Numbers are modelled by the integers (the values that \<open>String(n)\<close>
  prints in plain decimal); a string is a list of code units below 256. An object is the
  list of its own enumerable properties in the order \<open>Object.entries\<close> reports them.
\<close>

datatype jsval =
    JUndef
  | JNull
  | JBool bool
  | JNum int
  | JStr string
  | JArr "jsval list"
  | JObj "(string \<times> jsval) list"

type_synonym jsobject = "(string \<times> jsval) list"

subsection \<open>Number to string\<close>

definition digit_char :: "nat \<Rightarrow> char" where
  "digit_char d = ''0123456789'' ! (d mod 10)"

fun String_nat :: "nat \<Rightarrow> string" where
  "String_nat n = (if n < 10 then [digit_char n] else String_nat (n div 10) @ [digit_char n])"

declare String_nat.simps [simp del]

definition String_num :: "int \<Rightarrow> string" where
  "String_num n = (if n < 0 then CHR ''-'' # String_nat (nat (- n)) else String_nat (nat n))"

subsection \<open>Property enumeration and lookup\<close>

text \<open>\<open>Object.entries(v)\<close> for a value that is not \<open>null\<close> or \<open>undefined\<close>: the entries of
  an object, the index/element pairs of an array, the index/character pairs of a string, and
  nothing for a number or a boolean.\<close>

fun Object_entries :: "jsval \<Rightarrow> jsobject" where
  "Object_entries (JObj es) = es"
| "Object_entries (JArr xs) = map (\<lambda>(i, x). (String_nat i, x)) (List.enumerate 0 xs)"
| "Object_entries (JStr s) = map (\<lambda>(i, c). (String_nat i, JStr [c])) (List.enumerate 0 s)"
| "Object_entries _ = []"

section \<open>Parameter serializer (src/client/serialize.ts)\<close>

text \<open>\<open>URLSearchParams\<close> is the list of its key/value entries; \<open>append\<close> adds at the end.\<close>

type_synonym URLSearchParams = "(string \<times> string) list"

definition append :: "string \<Rightarrow> string \<Rightarrow> URLSearchParams \<Rightarrow> URLSearchParams" where
  "append key v searchParams = searchParams @ [(key, v)]"

definition bracket :: "string \<Rightarrow> string \<Rightarrow> string" where
  "bracket key sub = key @ ''['' @ sub @ '']''"

lemma size_list_elem:
  "x \<in> set xs \<Longrightarrow> size (x::jsval) < Suc (size_list size xs)"
  by (induction xs) auto

lemma size_enumerate_elem:
  "(i, x) \<in> set (List.enumerate n xs) \<Longrightarrow> size (x::jsval) < Suc (size_list size xs)"
  by (auto simp: in_set_enumerate_eq intro: size_list_elem)

lemma size_entries_elem:
  "(k, v) \<in> set es \<Longrightarrow> size (v::jsval) < Suc (size_list (size_prod (\<lambda>_. 0) size) es)"
  by (induction es) auto

lemma size_nested_arr:
  assumes "(a, JArr ys) \<in> set (List.enumerate n xs)" and "(i, v) \<in> set (List.enumerate m ys)"
  shows "size v < Suc (size_list size xs)"
proof -
  have "size v < size (JArr ys)" using assms(2) by (auto dest: size_enumerate_elem)
  moreover have "size (JArr ys) < Suc (size_list size xs)" using assms(1) by (rule size_enumerate_elem)
  ultimately show ?thesis by simp
qed

lemma size_nested_obj:
  assumes "(a, JObj es) \<in> set (List.enumerate n xs)" and "(k, v) \<in> set es"
  shows "size v < Suc (size_list size xs)"
proof -
  have "size v < size (JObj es)" using assms(2) by (auto dest: size_entries_elem)
  moreover have "size (JObj es) < Suc (size_list size xs)" using assms(1) by (rule size_enumerate_elem)
  ultimately show ?thesis by simp
qed

function appendParam :: "string \<Rightarrow> jsval \<Rightarrow> URLSearchParams \<Rightarrow> URLSearchParams" where
  "appendParam key JNull searchParams = searchParams"
| "appendParam key JUndef searchParams = searchParams"
| "appendParam key (JBool b) searchParams = append key (if b then ''1'' else ''0'') searchParams"
| "appendParam key (JNum n) searchParams = append key (String_num n) searchParams"
| "appendParam key (JStr s) searchParams = append key s searchParams"
| "appendParam key (JArr xs) searchParams =
     fold (\<lambda>(index, item) sp.
        let arrayKey = bracket key (String_nat index) in
        (case item of
           JObj es \<Rightarrow> fold (\<lambda>(subKey, subValue). appendParam (bracket arrayKey subKey) subValue) es sp
         | JArr ys \<Rightarrow> fold (\<lambda>(subKey, subValue). appendParam (bracket arrayKey subKey) subValue)
                        (Object_entries (JArr ys)) sp
         | _ \<Rightarrow> appendParam arrayKey item sp))
       (List.enumerate 0 xs) searchParams"
| "appendParam key (JObj es) searchParams =
     fold (\<lambda>(subKey, subValue). appendParam (bracket key subKey) subValue) es searchParams"
  by pat_completeness auto
termination
  by (relation "measure (\<lambda>(key, v, sp). size v)")
     (auto dest: size_enumerate_elem size_entries_elem size_nested_arr size_nested_obj)

definition serializeParams :: "jsobject \<Rightarrow> string \<Rightarrow> URLSearchParams" where
  "serializeParams params prefix =
     fold (\<lambda>(key, v). appendParam (if prefix \<noteq> [] then bracket prefix key else key) v) params []"



subsection \<open>Terminal scalars of a value\<close>

text \<open>The terminal scalars (strings, numbers, booleans) reachable in a value, in document
  order and in their wire form, and their number. \<open>null\<close> and \<open>undefined\<close> contribute
  nothing.\<close>

fun scalar_leaves :: "jsval \<Rightarrow> string list" where
  "scalar_leaves JNull = []"
| "scalar_leaves JUndef = []"
| "scalar_leaves (JBool b) = [if b then ''1'' else ''0'']"
| "scalar_leaves (JNum n) = [String_num n]"
| "scalar_leaves (JStr s) = [s]"
| "scalar_leaves (JArr xs) = concat (map scalar_leaves xs)"
| "scalar_leaves (JObj es) = concat (map (\<lambda>(k, v). scalar_leaves v) es)"

fun count_scalars :: "jsval \<Rightarrow> nat" where
  "count_scalars JNull = 0"
| "count_scalars JUndef = 0"
| "count_scalars (JBool b) = 1"
| "count_scalars (JNum n) = 1"
| "count_scalars (JStr s) = 1"
| "count_scalars (JArr xs) = sum_list (map count_scalars xs)"
| "count_scalars (JObj es) = sum_list (map (\<lambda>(k, v). count_scalars v) es)"

subsection \<open>Shape of the emitted keys\<close>

text \<open>A key built by \<open>bracket\<close> ends with a closing bracket. The entry a scalar contributes
  under its own key; other values contribute nothing under that key.\<close>

definition ends_bracket :: "string \<Rightarrow> bool" where
  "ends_bracket k = (k \<noteq> [] \<and> last k = CHR '']'')"

fun scalar_entry :: "string \<Rightarrow> jsval \<Rightarrow> URLSearchParams" where
  "scalar_entry key (JBool b) = [(key, if b then ''1'' else ''0'')]"
| "scalar_entry key (JNum n) = [(key, String_num n)]"
| "scalar_entry key (JStr s) = [(key, s)]"
| "scalar_entry key _ = []"

section \<open>Objects as ordered property lists\<close>

text \<open>
  A JavaScript object enumerates its array-index keys (canonical decimal numerals below
  \<open>2^32 - 1\<close>) first, in ascending numeric order, and then its other string keys in the
  order they were created. Writing an existing key keeps its position.
\<close>

definition is_digit :: "char \<Rightarrow> bool" where
  "is_digit c = (CHR ''0'' \<le> c \<and> c \<le> CHR ''9'')"

definition digit_value :: "char \<Rightarrow> nat" where
  "digit_value c = of_char c - 48"

definition nat_of_digits :: "string \<Rightarrow> nat" where
  "nat_of_digits s = foldl (\<lambda>n c. 10 * n + digit_value c) 0 s"

definition array_index :: "string \<Rightarrow> nat option" where
  "array_index k =
     (if k \<noteq> [] \<and> list_all is_digit k \<and> (k = ''0'' \<or> hd k \<noteq> CHR ''0'')
         \<and> nat_of_digits k < 4294967295
      then Some (nat_of_digits k) else None)"

definition key_before :: "string \<Rightarrow> string \<Rightarrow> bool" where
  "key_before k k' =
     (case array_index k of
        None \<Rightarrow> False
      | Some n \<Rightarrow> (case array_index k' of None \<Rightarrow> True | Some m \<Rightarrow> n < m))"

fun insert_new :: "string \<Rightarrow> jsval \<Rightarrow> jsobject \<Rightarrow> jsobject" where
  "insert_new k v [] = [(k, v)]"
| "insert_new k v ((k', v') # es) =
     (if key_before k k' then (k, v) # (k', v') # es else (k', v') # insert_new k v es)"

text \<open>Defining an own property (object literal, spread, assignment to a key other than
  \<open>__proto__\<close>).\<close>

definition obj_put :: "string \<Rightarrow> jsval \<Rightarrow> jsobject \<Rightarrow> jsobject" where
  "obj_put k v es =
     (if k \<in> set (map fst es)
      then map (\<lambda>(k', v'). (k', if k' = k then v else v')) es
      else insert_new k v es)"

text \<open>The spread \<open>{...target, ...source}\<close>: every own enumerable property of the source is
  defined on the target, in enumeration order; later writes win.\<close>

definition spread :: "jsobject \<Rightarrow> jsval \<Rightarrow> jsobject" where
  "spread target source = fold (\<lambda>(k, v). obj_put k v) (Object_entries source) target"

text \<open>Reading a named property \<open>v.key\<close> of a value that is not \<open>null\<close> or \<open>undefined\<close>, for
  the property names the sources use on parsed JSON (none of them is defined on a prototype):
  the own property of an object, \<open>undefined\<close> otherwise.\<close>

fun js_get :: "jsval \<Rightarrow> string \<Rightarrow> jsval" where
  "js_get (JObj es) key = (case map_of es key of None \<Rightarrow> JUndef | Some v \<Rightarrow> v)"
| "js_get _ key = JUndef"

text \<open>\<open>key in v\<close> for an object or array \<open>v\<close>, for the same property names.\<close>

fun js_in :: "string \<Rightarrow> jsval \<Rightarrow> bool" where
  "js_in key (JObj es) = (map_of es key \<noteq> None)"
| "js_in key _ = False"

fun truthy :: "jsval \<Rightarrow> bool" where
  "truthy JUndef = False"
| "truthy JNull = False"
| "truthy (JBool b) = b"
| "truthy (JNum n) = (n \<noteq> 0)"
| "truthy (JStr s) = (s \<noteq> [])"
| "truthy (JArr xs) = True"
| "truthy (JObj es) = True"

text \<open>\<open>typeof v === "object" && v !== null\<close>\<close>

fun is_object :: "jsval \<Rightarrow> bool" where
  "is_object (JArr xs) = True"
| "is_object (JObj es) = True"
| "is_object _ = False"

section \<open>Error taxonomy (src/client/errors.ts)\<close>

text \<open>
  A thrown value. \<open>JsError name message\<close> is an instance of \<open>Error\<close> that is none of the
  client's classes (\<open>Error\<close>, \<open>TypeError\<close>, \<open>SyntaxError\<close>, the \<open>DOMException\<close> named
  \<open>AbortError\<close>); \<open>NonError v\<close> is a thrown value that is not an \<open>Error\<close>. The client's
  classes carry the arguments their constructors were called with.
\<close>

datatype exn =
    JsError string string
  | MoodleError string "string option" "string option"
  | MoodleAuthError string
  | MoodleApiError jsval jsval jsval jsval
  | MoodleNetworkError string "exn option"
  | MoodleValidationError string "string option"
  | NonError jsval

definition isMoodleErrorResponse :: "jsval \<Rightarrow> bool" where
  "isMoodleErrorResponse response =
     (is_object response \<and> js_in ''message'' response \<and>
      (js_in ''exception'' response \<or> js_in ''errorcode'' response))"

section \<open>HTTP call executor (src/client/call.ts)\<close>

record CallResult =
  data :: jsval
  warnings :: jsval

text \<open>The part of a \<open>Response\<close> that \<open>call\<close> reads. The transport's promise is fulfilled
  when the status line and headers are in; the body is read afterwards. \<open>json\<close> is what
  \<open>await response.json()\<close> does: it never returns when the body never arrives (\<open>None\<close>), it
  throws (a \<open>SyntaxError\<close> for a body that is not JSON), or it yields the parsed body.\<close>

record Response =
  ok :: bool
  status :: int
  statusText :: string
  json :: "(exn + jsval) option"

record Request =
  url :: string
  http_method :: string
  headers :: "(string \<times> string) list"
  body :: URLSearchParams

subsection \<open>The transport and the deadline timer\<close>

text \<open>
  \<open>call\<close> arms one timer whose callback aborts the request's \<open>AbortController\<close>, and then
  awaits the promise returned by the transport. What the await sees depends on the order of
  two events: the promise settling by itself, and the timer callback running. A transport is
  described by when its promise settles relative to the timer callback (before it, only after
  it, or never), and by what it does when its abort signal fires while it is pending:
  reject with some error (the platform \<open>fetch\<close> rejects with the \<open>DOMException\<close> named
  \<open>AbortError\<close>), or nothing, for a transport that ignores the signal.
\<close>

datatype settlement = Fulfilled Response | Rejected exn

datatype fetch_timing =
    SettlesBeforeDeadline settlement
  | SettlesAfterDeadline settlement
  | NeverSettles

record fetch_run =
  timing :: fetch_timing
  on_abort :: "exn option"

datatype timer = Armed | Cleared | Fired

text \<open>\<open>clearTimeout\<close> disarms a pending timer and does nothing to one that has fired.\<close>

fun clearTimeout :: "timer \<Rightarrow> timer" where
  "clearTimeout Armed = Cleared"
| "clearTimeout t = t"

text \<open>The deadline passing: only a timer that is still armed fires.\<close>

fun deadline :: "timer \<Rightarrow> timer" where
  "deadline Armed = Fired"
| "deadline t = t"

text \<open>\<open>await fetchFn(url, {..., signal})\<close> with the timer armed: the state of the timer when
  the await returns, and the settlement it returns with; \<open>None\<close> when it never returns.\<close>

fun await_fetch :: "fetch_run \<Rightarrow> timer \<times> settlement option" where
  "await_fetch run =
     (case timing run of
        SettlesBeforeDeadline s \<Rightarrow> (Armed, Some s)
      | SettlesAfterDeadline s \<Rightarrow>
          (case on_abort run of
             Some e \<Rightarrow> (deadline Armed, Some (Rejected e))
           | None \<Rightarrow> (deadline Armed, Some s))
      | NeverSettles \<Rightarrow>
          (case on_abort run of
             Some e \<Rightarrow> (deadline Armed, Some (Rejected e))
           | None \<Rightarrow> (deadline Armed, None)))"

record CallOptions =
  baseUrl :: string
  token :: string
  timeout :: "int option"
  fetch :: "(Request \<Rightarrow> fetch_run) option"

text \<open>The platform: the \<open>URL\<close> constructor (which throws a \<open>TypeError\<close> on an unparsable
  base) and \<open>globalThis.fetch\<close>.\<close>

record platform =
  URL_new :: "string \<Rightarrow> string \<Rightarrow> exn + string"
  globalThis_fetch :: "Request \<Rightarrow> fetch_run"

text \<open>The request body: lines "Build request body" of \<open>call\<close>.\<close>

definition call_body :: "string \<Rightarrow> string \<Rightarrow> jsval \<Rightarrow> URLSearchParams" where
  "call_body tok wsfunction params =
     serializeParams
       (spread [(''wstoken'', JStr tok),
                (''wsfunction'', JStr wsfunction),
                (''moodlewsrestformat'', JStr ''json'')] params) []"

text \<open>The \<open>try\<close> block after the transport has answered and the timer has been cleared:
  the value returned or the error thrown, or \<open>None\<close> when the block never finishes because
  the body never arrives. No deadline covers the wait for the body.\<close>

definition call_try :: "Response \<Rightarrow> (exn + CallResult) option" where
  "call_try response =
     (if \<not> ok response
      then Some (Inl (MoodleNetworkError
                  (''HTTP '' @ String_num (status response) @ '': '' @ statusText response) None))
      else case json response of
        None \<Rightarrow> None
      | Some (Inl e) \<Rightarrow> Some (Inl e)
      | Some (Inr d) \<Rightarrow>
          if isMoodleErrorResponse d
          then Some (Inl (MoodleApiError (js_get d ''message'')
                      (case js_get d ''errorcode'' of
                         JUndef \<Rightarrow> JStr ''unknown'' | JNull \<Rightarrow> JStr ''unknown'' | c \<Rightarrow> c)
                      (js_get d ''exception'')
                      (js_get d ''debuginfo'')))
          else Some (Inr \<lparr> data = d,
                     warnings = (if is_object d \<and> js_in ''warnings'' d
                                    \<and> (case js_get d ''warnings'' of JArr ws \<Rightarrow> True | _ \<Rightarrow> False)
                                 then js_get d ''warnings'' else JUndef) \<rparr>))"

text \<open>The \<open>catch\<close> block: the error \<open>call\<close> finally throws for an error caught in \<open>try\<close>.\<close>

fun call_catch :: "int \<Rightarrow> exn \<Rightarrow> exn" where
  "call_catch ms (MoodleApiError message errorCode exception debugInfo) =
     MoodleApiError message errorCode exception debugInfo"
| "call_catch ms (NonError v) = MoodleNetworkError ''Unknown error occurred'' None"
| "call_catch ms (JsError name message) =
     (if name = ''AbortError''
      then MoodleNetworkError (''Request timeout after '' @ String_num ms @ ''ms'') None
      else MoodleNetworkError message (Some (JsError name message)))"
| "call_catch ms (MoodleError message code debugInfo) =
     MoodleNetworkError message (Some (MoodleError message code debugInfo))"
| "call_catch ms (MoodleAuthError message) =
     MoodleNetworkError message (Some (MoodleAuthError message))"
| "call_catch ms (MoodleNetworkError message cause) =
     MoodleNetworkError message (Some (MoodleNetworkError message cause))"
| "call_catch ms (MoodleValidationError message field) =
     MoodleNetworkError message (Some (MoodleValidationError message field))"

text \<open>The value \<open>call\<close> injects under a protocol key.\<close>

definition protocol_value :: "string \<Rightarrow> string \<Rightarrow> string \<Rightarrow> jsval" where
  "protocol_value tok wsfunction K =
     (if K = ''wstoken'' then JStr tok else if K = ''wsfunction'' then JStr wsfunction else JStr ''json'')"

text \<open>The request handed to the transport, and the transport used.\<close>

definition call_request :: "string \<Rightarrow> string \<Rightarrow> string \<Rightarrow> jsval \<Rightarrow> Request" where
  "call_request u tok wsfunction params =
     \<lparr> url = u, http_method = ''POST'',
       headers = [(''Content-Type'', ''application/x-www-form-urlencoded'')],
       body = call_body tok wsfunction params \<rparr>"

definition fetchFn :: "platform \<Rightarrow> CallOptions \<Rightarrow> Request \<Rightarrow> fetch_run" where
  "fetchFn pf options = (case fetch options of None \<Rightarrow> globalThis_fetch pf | Some f \<Rightarrow> f)"

text \<open>The outcome of a call: how the returned promise settles (\<open>None\<close>: it never does), and
  the final state of the deadline timer (\<open>None\<close>: no timer was created).\<close>

record call_outcome =
  settled :: "(exn + CallResult) option"
  deadline_timer :: "timer option"

definition call :: "platform \<Rightarrow> string \<Rightarrow> jsval \<Rightarrow> CallOptions \<Rightarrow> call_outcome" where
  "call pf wsfunction params options =
     (let ms = (case timeout options of None \<Rightarrow> 30000 | Some t \<Rightarrow> t)
      in case URL_new pf ''/webservice/rest/server.php'' (baseUrl options) of
           Inl e \<Rightarrow> \<lparr> settled = Some (Inl e), deadline_timer = None \<rparr>
         | Inr u \<Rightarrow>
             (case await_fetch
                     (fetchFn pf options (call_request u (token options) wsfunction params)) of
                (tm, None) \<Rightarrow> \<lparr> settled = None, deadline_timer = Some tm \<rparr>
              | (tm, Some (Fulfilled response)) \<Rightarrow>
                  (case call_try response of
                     None \<Rightarrow> \<lparr> settled = None, deadline_timer = Some (clearTimeout tm) \<rparr>
                   | Some (Inr result) \<Rightarrow>
                       \<lparr> settled = Some (Inr result), deadline_timer = Some (clearTimeout tm) \<rparr>
                   | Some (Inl e) \<Rightarrow>
                       \<lparr> settled = Some (Inl (call_catch ms e)),
                         deadline_timer = Some (clearTimeout (clearTimeout tm)) \<rparr>)
              | (tm, Some (Rejected e)) \<Rightarrow>
                  \<lparr> settled = Some (Inl (call_catch ms e)),
                    deadline_timer = Some (clearTimeout tm) \<rparr>))"

section \<open>Client (src/client/MoodleClient.ts)\<close>

record MoodleClientConfig =
  cfg_baseUrl :: "string option"
  cfg_token :: "string option"
  cfg_timeout :: "int option"
  cfg_fetch :: "(Request \<Rightarrow> fetch_run) option"

text \<open>\<open>s.replace(/\/+$/, "")\<close>\<close>

definition strip_trailing_slashes :: "string \<Rightarrow> string" where
  "strip_trailing_slashes s = rev (dropWhile (\<lambda>c. c = CHR ''/'') (rev s))"

text \<open>\<open>!s\<close> for an optional string: absent or empty.\<close>

fun missing :: "string option \<Rightarrow> bool" where
  "missing None = True"
| "missing (Some s) = (s = [])"

text \<open>The constructor: the stored configuration, or the error it throws.\<close>

definition MoodleClient :: "MoodleClientConfig \<Rightarrow> exn + CallOptions" where
  "MoodleClient config =
     (if missing (cfg_baseUrl config) then Inl (JsError ''Error'' ''baseUrl is required'')
      else if missing (cfg_token config) then Inl (JsError ''Error'' ''token is required'')
      else Inr \<lparr> baseUrl = strip_trailing_slashes (the (cfg_baseUrl config)),
                 token = the (cfg_token config),
                 timeout = Some (case cfg_timeout config of None \<Rightarrow> 30000 | Some t \<Rightarrow> t),
                 fetch = cfg_fetch config \<rparr>)"

text \<open>Whether a thrown value is the validation variant of the taxonomy.\<close>

fun is_validation_error :: "exn \<Rightarrow> bool" where
  "is_validation_error (MoodleValidationError message field) = True"
| "is_validation_error _ = False"

subsection \<open>Sample environment\<close>

text \<open>A platform whose \<open>URL\<close> constructor accepts every base, and transports that answer
  with a given JSON body before the deadline, that answer before the deadline with a body
  that never arrives, or that never answer and ignore the abort signal.\<close>

definition sample_platform :: platform where
  "sample_platform =
     \<lparr> URL_new = (\<lambda>path base. Inr (base @ path)),
       globalThis_fetch = (\<lambda>req. \<lparr> timing = NeverSettles,
                                     on_abort = Some (JsError ''AbortError'' ''This operation was aborted'') \<rparr>) \<rparr>"

definition answering :: "jsval \<Rightarrow> Request \<Rightarrow> fetch_run" where
  "answering d req =
     \<lparr> timing = SettlesBeforeDeadline
                  (Fulfilled \<lparr> ok = True, status = 200, statusText = ''OK'',
                               json = Some (Inr d) \<rparr>),
       on_abort = Some (JsError ''AbortError'' ''This operation was aborted'') \<rparr>"

definition stalling :: "Request \<Rightarrow> fetch_run" where
  "stalling req =
     \<lparr> timing = SettlesBeforeDeadline
                  (Fulfilled \<lparr> ok = True, status = 200, statusText = ''OK'', json = None \<rparr>),
       on_abort = Some (JsError ''AbortError'' ''This operation was aborted'') \<rparr>"

definition silent :: "Request \<Rightarrow> fetch_run" where
  "silent req = \<lparr> timing = NeverSettles, on_abort = None \<rparr>"

definition sample_options :: "int option \<Rightarrow> (Request \<Rightarrow> fetch_run) option \<Rightarrow> CallOptions" where
  "sample_options t f =
     \<lparr> baseUrl = ''https://moodle.example.com'', token = ''secret'', timeout = t, fetch = f \<rparr>"

section \<open>Schema to OpenAPI (scripts/generate-openapi.mjs)\<close>

subsection \<open>String and value helpers\<close>

fun startsWith :: "string \<Rightarrow> string \<Rightarrow> bool" where
  "startsWith s [] = True"
| "startsWith [] (c # cs) = False"
| "startsWith (x # xs) (c # cs) = (x = c \<and> startsWith xs cs)"

fun str_includes :: "string \<Rightarrow> string \<Rightarrow> bool" where
  "str_includes [] sub = (sub = [])"
| "str_includes (x # xs) sub = (startsWith (x # xs) sub \<or> str_includes xs sub)"

definition dquote :: char where "dquote = CHR 0x22"
definition newline :: char where "newline = CHR 0x0A"
definition backslash :: char where "backslash = CHR 0x5C"

text \<open>\<open>s.split(sep)\<close> for a separator of one character.\<close>

fun split_on :: "char \<Rightarrow> string \<Rightarrow> string list" where
  "split_on sep [] = [[]]"
| "split_on sep (c # cs) =
     (if c = sep then [] # split_on sep cs
      else (case split_on sep cs of l # ls \<Rightarrow> (c # l) # ls | [] \<Rightarrow> [[c]]))"

definition TypeError :: "string \<Rightarrow> exn" where
  "TypeError message = JsError ''TypeError'' message"

text \<open>\<open>a && b\<close>\<close>

definition js_and :: "jsval \<Rightarrow> jsval \<Rightarrow> jsval" where
  "js_and a b = (if truthy a then b else a)"

text \<open>\<open>a || b\<close>\<close>

definition js_or :: "jsval \<Rightarrow> jsval \<Rightarrow> jsval" where
  "js_or a b = (if truthy a then a else b)"

text \<open>An object literal \<open>{...base, ...p1, ..., ...pn}\<close>.\<close>

definition spreads :: "jsobject \<Rightarrow> jsval list \<Rightarrow> jsobject" where
  "spreads base parts = foldl spread base parts"

text \<open>The assignment \<open>o[key] = v\<close> on a plain object: the key \<open>__proto__\<close> reaches the
  prototype setter and creates no own property.\<close>

definition obj_assign :: "string \<Rightarrow> jsval \<Rightarrow> jsobject \<Rightarrow> jsobject" where
  "obj_assign key v es = (if key = ''__proto__'' then es else obj_put key v es)"

text \<open>\<open>v?.includes(key)\<close> used as a condition, for a string \<open>key\<close>: \<open>undefined\<close> (falsy) on
  \<open>null\<close> and \<open>undefined\<close>, membership on an array, the substring test on a string, and a
  \<open>TypeError\<close> on every other value, which has no callable \<open>includes\<close>.\<close>

fun optional_includes :: "jsval \<Rightarrow> string \<Rightarrow> exn + bool" where
  "optional_includes JUndef key = Inr False"
| "optional_includes JNull key = Inr False"
| "optional_includes (JArr xs) key = Inr (JStr key \<in> set xs)"
| "optional_includes (JStr s) key = Inr (str_includes s key)"
| "optional_includes _ key = Inl (TypeError ''schema.required?.includes is not a function'')"

text \<open>\<open>value.required === true\<close>: reading a property of \<open>null\<close> or \<open>undefined\<close> throws.\<close>

fun required_is_true :: "jsval \<Rightarrow> exn + bool" where
  "required_is_true JUndef = Inl (TypeError ''Cannot read properties of undefined'')"
| "required_is_true JNull = Inl (TypeError ''Cannot read properties of null'')"
| "required_is_true value = Inr (js_get value ''required'' = JBool True)"

text \<open>\<open>schema.required?.includes(key) || value.required === true\<close>\<close>

definition is_required :: "jsval \<Rightarrow> string \<Rightarrow> jsval \<Rightarrow> exn + bool" where
  "is_required schema key value =
     (case optional_includes (js_get schema ''required'') key of
        Inl e \<Rightarrow> Inl e
      | Inr True \<Rightarrow> Inr True
      | Inr False \<Rightarrow> required_is_true value)"

subsection \<open>moodleTypeToOpenAPI\<close>

definition permissive :: jsval where
  "permissive = JObj [(''type'', JStr ''object''), (''additionalProperties'', JBool True)]"

text \<open>The optional members \<open>...(schema.description && {description: schema.description})\<close>,
  \<open>...(schema.default !== undefined && {default: schema.default})\<close> and
  \<open>...(schema.nullable && {nullable: true})\<close>.\<close>

definition description_part :: "jsval \<Rightarrow> jsval" where
  "description_part schema =
     js_and (js_get schema ''description'') (JObj [(''description'', js_get schema ''description'')])"

definition default_part :: "jsval \<Rightarrow> jsval" where
  "default_part schema =
     (if js_get schema ''default'' \<noteq> JUndef
      then JObj [(''default'', js_get schema ''default'')] else JBool False)"

definition nullable_part :: "jsval \<Rightarrow> jsval" where
  "nullable_part schema = js_and (js_get schema ''nullable'') (JObj [(''nullable'', JBool True)])"

text \<open>The body of the \<open>for\<close> loop over \<open>Object.entries(schema.properties)\<close>, given for each
  entry the result of the recursive call on its value: the call's error is raised where the
  loop makes the call, before the entry's \<open>required\<close> test.\<close>

fun object_loop ::
  "jsval \<Rightarrow> (string \<times> jsval \<times> (exn + jsval)) list \<Rightarrow> jsobject \<Rightarrow> jsval list
     \<Rightarrow> exn + (jsobject \<times> jsval list)" where
  "object_loop schema [] properties required = Inr (properties, required)"
| "object_loop schema ((key, value, converted) # rest) properties required =
     (case converted of
        Inl e \<Rightarrow> Inl e
      | Inr c \<Rightarrow>
          (case is_required schema key value of
             Inl e \<Rightarrow> Inl e
           | Inr b \<Rightarrow>
               object_loop schema rest (obj_assign key c properties)
                 (if b then required @ [JStr key] else required)))"

lemma size_js_get:
  "truthy (js_get schema key) \<Longrightarrow> size (js_get schema key) < size schema"
proof (cases schema)
  case (JObj es)
  assume t: "truthy (js_get schema key)"
  then obtain v where v: "map_of es key = Some v"
    using JObj by (cases "map_of es key") auto
  then have "(key, v) \<in> set es" by (rule map_of_SomeD)
  then have "size v < Suc (size_list (size_prod (\<lambda>_. 0) size) es)"
    by (rule size_entries_elem)
  then show ?thesis using JObj v by simp
qed auto

lemma size_Object_entries:
  "(k, v) \<in> set (Object_entries p) \<Longrightarrow> size v \<le> size p"
proof (cases p)
  case (JArr xs)
  assume "(k, v) \<in> set (Object_entries p)"
  then obtain i where "(i, v) \<in> set (List.enumerate 0 xs)"
    using JArr by (auto simp: image_iff)
  then have "size v < Suc (size_list size xs)" by (rule size_enumerate_elem)
  then show ?thesis using JArr by simp
next
  case (JObj es)
  assume "(k, v) \<in> set (Object_entries p)"
  then have "size v < Suc (size_list (size_prod (\<lambda>_. 0) size) es)"
    using JObj by (auto dest: size_entries_elem)
  then show ?thesis using JObj by simp
qed auto

function moodleTypeToOpenAPI :: "jsval \<Rightarrow> jsval \<Rightarrow> string \<Rightarrow> exn + jsval" where
  "moodleTypeToOpenAPI schema components prefix =
     (if \<not> truthy schema then Inr permissive
      else if js_get schema ''type'' = JStr ''integer'' then
        Inr (JObj (spreads [(''type'', JStr ''integer'')]
                     [description_part schema, default_part schema, nullable_part schema]))
      else if js_get schema ''type'' = JStr ''number'' then
        Inr (JObj (spreads [(''type'', JStr ''number'')]
                     [description_part schema, default_part schema, nullable_part schema]))
      else if js_get schema ''type'' = JStr ''boolean'' then
        Inr (JObj (spreads [(''type'', JStr ''boolean'')]
                     [description_part schema, default_part schema]))
      else if js_get schema ''type'' = JStr ''string'' then
        Inr (JObj (spreads [(''type'', JStr ''string'')]
                     [description_part schema, default_part schema, nullable_part schema]))
      else if js_get schema ''type'' = JStr ''array'' then
        (case (if truthy (js_get schema ''items'')
               then moodleTypeToOpenAPI (js_get schema ''items'') components prefix
               else Inr permissive) of
           Inl e \<Rightarrow> Inl e
         | Inr items \<Rightarrow>
             Inr (JObj (spreads [(''type'', JStr ''array''), (''items'', items)]
                          [description_part schema])))
      else if js_get schema ''type'' = JStr ''object'' then
        (if \<not> truthy (js_get schema ''properties'')
            \<or> Object_entries (js_get schema ''properties'') = []
         then Inr (JObj (spreads [(''type'', JStr ''object''), (''additionalProperties'', JBool True)]
                           [description_part schema]))
         else
           (case object_loop schema
                   (map (\<lambda>(key, value).
                           (key, value,
                            moodleTypeToOpenAPI value components (prefix @ ''_'' @ key)))
                      (Object_entries (js_get schema ''properties''))) [] [] of
              Inl e \<Rightarrow> Inl e
            | Inr (properties, required) \<Rightarrow>
                Inr (JObj (spreads [(''type'', JStr ''object''), (''properties'', JObj properties)]
                             [if required \<noteq> [] then JObj [(''required'', JArr required)]
                              else JBool False,
                              description_part schema]))))
      else Inr permissive)"
  by pat_completeness auto
termination
proof (relation "measure (\<lambda>(schema, components, prefix). size schema)", goal_cases)
  case 1
  show ?case by simp
next
  case (2 schema components prefix)
  then show ?case by (simp add: size_js_get)
next
  case (3 schema components prefix x key v)
  then have "(key, v) \<in> set (Object_entries (js_get schema ''properties''))" by simp
  then have "size v \<le> size (js_get schema ''properties'')" by (rule size_Object_entries)
  moreover have "size (js_get schema ''properties'') < size schema"
    using 3 by (intro size_js_get) simp
  ultimately show ?case by simp
qed

declare moodleTypeToOpenAPI.simps [simp del]

section \<open>JSON to YAML (scripts/generate-openapi.mjs)\<close>

subsection \<open>String operations\<close>

definition endsWith :: "string \<Rightarrow> string \<Rightarrow> bool" where
  "endsWith s suffix = startsWith (rev s) (rev suffix)"

text \<open>The white space and line terminators that \<open>trim\<close> removes, among the code units
  below 256: tab, line feed, vertical tab, form feed, carriage return, space, no-break space.\<close>

definition is_space :: "char \<Rightarrow> bool" where
  "is_space c = ((of_char c :: nat) \<in> set [9, 10, 11, 12, 13, 32, 160])"

definition trim :: "string \<Rightarrow> string" where
  "trim s = rev (dropWhile is_space (rev (dropWhile is_space s)))"

definition is_upper :: "char \<Rightarrow> bool" where
  "is_upper c = (CHR ''A'' \<le> c \<and> c \<le> CHR ''Z'')"

definition is_lower :: "char \<Rightarrow> bool" where
  "is_lower c = (CHR ''a'' \<le> c \<and> c \<le> CHR ''z'')"

text \<open>\<open>toLowerCase\<close> on code units below 256: the ASCII capitals and the Latin-1 capitals
  (192 to 222 without the multiplication sign 215) move up by 32.\<close>

definition lower_char :: "char \<Rightarrow> char" where
  "lower_char c =
     (let n = (of_char c :: nat)
      in if (65 \<le> n \<and> n \<le> 90) \<or> (192 \<le> n \<and> n \<le> 222 \<and> n \<noteq> 215)
         then char_of (n + 32) else c)"

definition toLowerCase :: "string \<Rightarrow> string" where
  "toLowerCase s = map lower_char s"

text \<open>\<open>s.replace(/"/g, '\\"').replace(/\n/g, "\\n")\<close>\<close>

definition escape_quotes :: "string \<Rightarrow> string" where
  "escape_quotes s = concat (map (\<lambda>c. if c = dquote then [backslash, dquote] else [c]) s)"

definition escape_newlines :: "string \<Rightarrow> string" where
  "escape_newlines s = concat (map (\<lambda>c. if c = newline then [backslash, CHR ''n''] else [c]) s)"

text \<open>\<open>"  ".repeat(n)\<close>\<close>

definition spaces_of :: "nat \<Rightarrow> string" where
  "spaces_of n = concat (replicate n ''  '')"

text \<open>\<open>/^[a-zA-Z_][a-zA-Z0-9_]*$/.test(key)\<close>\<close>

definition is_safe_key :: "string \<Rightarrow> bool" where
  "is_safe_key key =
     (case key of
        [] \<Rightarrow> False
      | c # cs \<Rightarrow> (is_upper c \<or> is_lower c \<or> c = CHR ''_'')
                 \<and> list_all (\<lambda>d. is_upper d \<or> is_lower d \<or> is_digit d \<or> d = CHR ''_'') cs)"

text \<open>\<open>/^[0-9]/.test(s)\<close>\<close>

definition starts_with_digit :: "string \<Rightarrow> bool" where
  "starts_with_digit s = (case s of [] \<Rightarrow> False | c # cs \<Rightarrow> is_digit c)"

text \<open>\<open>String(v)\<close> for a JSON value: an array prints its elements joined by commas, with
  \<open>null\<close> and \<open>undefined\<close> elements empty; a plain object prints as \<open>[object Object]\<close>.\<close>

fun join_commas :: "string list \<Rightarrow> string" where
  "join_commas [] = []"
| "join_commas [s] = s"
| "join_commas (s # t # ss) = s @ '','' @ join_commas (t # ss)"

fun String_value :: "jsval \<Rightarrow> string" where
  "String_value JUndef = ''undefined''"
| "String_value JNull = ''null''"
| "String_value (JBool b) = (if b then ''true'' else ''false'')"
| "String_value (JNum n) = String_num n"
| "String_value (JStr s) = s"
| "String_value (JArr xs) =
     join_commas (map (\<lambda>x. if x = JNull \<or> x = JUndef then [] else String_value x) xs)"
| "String_value (JObj es) = ''[object Object]''"

subsection \<open>formatYamlValue and jsonToYaml\<close>

definition needs_quoting :: "string \<Rightarrow> bool" where
  "needs_quoting v =
     (v = [] \<or> str_includes v '':'' \<or> str_includes v ''#'' \<or> str_includes v [newline]
      \<or> startsWith v '' '' \<or> endsWith v '' '' \<or> starts_with_digit v
      \<or> toLowerCase v \<in> set [''true'', ''false'', ''null'', ''yes'', ''no''])"

definition quoted :: "string \<Rightarrow> string" where
  "quoted v = [dquote] @ escape_newlines (escape_quotes v) @ [dquote]"

fun formatYamlValue :: "jsval \<Rightarrow> string" where
  "formatYamlValue JNull = ''null''"
| "formatYamlValue JUndef = ''null''"
| "formatYamlValue (JBool b) = (if b then ''true'' else ''false'')"
| "formatYamlValue (JNum n) = String_num n"
| "formatYamlValue (JStr v) = (if needs_quoting v then quoted v else v)"
| "formatYamlValue v = String_value v"

text \<open>The text appended for an array item that is an object, from the YAML of the item: the
  first non-blank line goes on the dash line, the others are re-indented.\<close>

definition dash_item :: "string \<Rightarrow> string \<Rightarrow> string" where
  "dash_item spaces itemYaml =
     [newline] @ spaces @ ''-'' @
     (case filter (\<lambda>l. trim l \<noteq> []) (split_on newline itemYaml) of
        [] \<Rightarrow> []
      | l # ls \<Rightarrow> '' '' @ trim l @ concat (map (\<lambda>l'. [newline] @ spaces @ ''  '' @ trim l') ls))"

text \<open>The line appended for an object entry whose value is an object, from the YAML of the
  value.\<close>

definition nested_entry :: "string \<Rightarrow> string \<Rightarrow> string \<Rightarrow> string" where
  "nested_entry spaces safeKey nestedYaml =
     (if startsWith nestedYaml [newline] \<or> nestedYaml = ''{}'' \<or> nestedYaml = ''[]''
      then spaces @ safeKey @ '':''
           @ (if nestedYaml = ''{}'' \<or> nestedYaml = ''[]'' then '' '' @ nestedYaml else nestedYaml)
           @ [newline]
      else spaces @ safeKey @ '': '' @ nestedYaml @ [newline])"

function jsonToYaml :: "jsval \<Rightarrow> nat \<Rightarrow> string" where
  "jsonToYaml (JArr xs) indent =
     (if xs = [] then ''[]''
      else concat (map (\<lambda>item.
             if is_object item
             then dash_item (spaces_of indent) (jsonToYaml item (indent + 1))
             else [newline] @ spaces_of indent @ ''- '' @ formatYamlValue item) xs))"
| "jsonToYaml (JObj es) indent =
     (if es = [] then ''{}''
      else concat (map (\<lambda>(key, v).
             let safeKey = (if is_safe_key key then key else [dquote] @ key @ [dquote])
             in if is_object v
                then nested_entry (spaces_of indent) safeKey (jsonToYaml v (indent + 1))
                else spaces_of indent @ safeKey @ '': '' @ formatYamlValue v @ [newline]) es))"
| "jsonToYaml JUndef indent = formatYamlValue JUndef"
| "jsonToYaml JNull indent = formatYamlValue JNull"
| "jsonToYaml (JBool b) indent = formatYamlValue (JBool b)"
| "jsonToYaml (JNum n) indent = formatYamlValue (JNum n)"
| "jsonToYaml (JStr s) indent = formatYamlValue (JStr s)"
  by pat_completeness auto
termination
  by (relation "measure (\<lambda>(v, indent). size v)")
     (auto dest: size_list_elem size_entries_elem)

subsection \<open>The quoting rule in words\<close>

text \<open>The quoting rule as the specification words it: empty, containing a colon or a hash,
  leading or trailing white space, starting with a digit, or a reserved word in any letter
  case.\<close>

definition reserved_words :: "string set" where
  "reserved_words = {''true'', ''false'', ''null'', ''yes'', ''no''}"

definition stated_quoting :: "string \<Rightarrow> bool" where
  "stated_quoting v =
     (v = [] \<or> CHR '':'' \<in> set v \<or> CHR ''#'' \<in> set v
      \<or> is_space (hd v) \<or> is_space (last v) \<or> is_digit (hd v)
      \<or> toLowerCase v \<in> reserved_words)"

text \<open>The rule the emitter applies: as above, with a line feed among the characters that
  force quotes, and with the space character as the only leading or trailing white space
  looked for.\<close>

definition applied_quoting :: "string \<Rightarrow> bool" where
  "applied_quoting v =
     (v = [] \<or> CHR '':'' \<in> set v \<or> CHR ''#'' \<in> set v \<or> newline \<in> set v
      \<or> hd v = CHR '' '' \<or> last v = CHR '' '' \<or> is_digit (hd v)
      \<or> toLowerCase v \<in> reserved_words)"

section \<open>OpenAPI document (scripts/generate-openapi.mjs)\<close>

subsection \<open>Names and tags\<close>

text \<open>\<open>c.toUpperCase()\<close> for one code unit below 256: the ASCII and Latin-1 small letters
  move down by 32 and the sharp s becomes \<open>SS\<close>; the micro sign and the y with diaeresis,
  whose capitals lie above 255, are left as they are.\<close>

definition upper_char :: "char \<Rightarrow> string" where
  "upper_char c =
     (let n = (of_char c :: nat)
      in if (97 \<le> n \<and> n \<le> 122) \<or> (224 \<le> n \<and> n \<le> 254 \<and> n \<noteq> 247)
         then [char_of (n - 32)]
         else if n = 223 then ''SS'' else [c])"

text \<open>\<open>part.charAt(0).toUpperCase() + part.slice(1)\<close>\<close>

definition capitalize :: "string \<Rightarrow> string" where
  "capitalize part = (case part of [] \<Rightarrow> [] | c # cs \<Rightarrow> upper_char c @ cs)"

text \<open>\<open>toPascalCase\<close> and \<open>getTagFromFunctionName\<close> call \<open>split\<close> on their argument: a
  \<open>TypeError\<close> unless it is a string.\<close>

fun toPascalCase :: "jsval \<Rightarrow> exn + string" where
  "toPascalCase (JStr str) = Inr (concat (map capitalize (split_on (CHR ''_'') str)))"
| "toPascalCase _ = Inl (TypeError ''str.split is not a function'')"

fun getTagFromFunctionName :: "jsval \<Rightarrow> exn + string" where
  "getTagFromFunctionName (JStr name) =
     (case split_on (CHR ''_'') name of
        p0 # p1 # ps \<Rightarrow> Inr (p0 @ ''_'' @ p1)
      | [p0] \<Rightarrow> Inr (if p0 \<noteq> [] then p0 else ''misc'')
      | [] \<Rightarrow> Inr ''misc'')"
| "getTagFromFunctionName _ = Inl (TypeError ''name.split is not a function'')"

text \<open>\<open>for (const x of v)\<close>: the elements of an array, the characters of a string, and a
  \<open>TypeError\<close> for a value that is not iterable.\<close>

fun iterate :: "jsval \<Rightarrow> exn + jsval list" where
  "iterate (JArr xs) = Inr xs"
| "iterate (JStr s) = Inr (map (\<lambda>c. JStr [c]) s)"
| "iterate _ = Inl (TypeError ''value is not iterable'')"

text \<open>Reading a property, which throws on \<open>null\<close> and \<open>undefined\<close>.\<close>

fun js_member :: "jsval \<Rightarrow> string \<Rightarrow> exn + jsval" where
  "js_member JUndef key = Inl (TypeError ''Cannot read properties of undefined'')"
| "js_member JNull key = Inl (TypeError ''Cannot read properties of null'')"
| "js_member v key = Inr (js_get v key)"

definition tagDescriptions :: "(string \<times> string) list" where
  "tagDescriptions =
     [(''core_auth'', ''Authentication functions''),
      (''core_blog'', ''Blog functions''),
      (''core_calendar'', ''Calendar functions''),
      (''core_cohort'', ''Cohort management''),
      (''core_comment'', ''Comment functions''),
      (''core_competency'', ''Competency framework''),
      (''core_completion'', ''Course completion''),
      (''core_course'', ''Course management''),
      (''core_customfield'', ''Custom fields''),
      (''core_enrol'', ''Enrollment functions''),
      (''core_fetch'', ''Data fetching''),
      (''core_files'', ''File management''),
      (''core_filters'', ''Filter functions''),
      (''core_form'', ''Form functions''),
      (''core_grades'', ''Grade functions''),
      (''core_group'', ''Group management''),
      (''core_message'', ''Messaging functions''),
      (''core_notes'', ''Notes functions''),
      (''core_output'', ''Output functions''),
      (''core_question'', ''Question bank''),
      (''core_rating'', ''Rating functions''),
      (''core_reportbuilder'', ''Report builder''),
      (''core_role'', ''Role management''),
      (''core_search'', ''Search functions''),
      (''core_session'', ''Session management''),
      (''core_table'', ''Table functions''),
      (''core_tag'', ''Tag functions''),
      (''core_user'', ''User management''),
      (''core_webservice'', ''Web service functions''),
      (''core_xapi'', ''xAPI functions''),
      (''mod_assign'', ''Assignment module''),
      (''mod_book'', ''Book module''),
      (''mod_chat'', ''Chat module''),
      (''mod_choice'', ''Choice module''),
      (''mod_data'', ''Database module''),
      (''mod_feedback'', ''Feedback module''),
      (''mod_folder'', ''Folder module''),
      (''mod_forum'', ''Forum module''),
      (''mod_glossary'', ''Glossary module''),
      (''mod_h5pactivity'', ''H5P activity module''),
      (''mod_imscp'', ''IMS content package''),
      (''mod_label'', ''Label module''),
      (''mod_lesson'', ''Lesson module''),
      (''mod_lti'', ''LTI module''),
      (''mod_page'', ''Page module''),
      (''mod_quiz'', ''Quiz module''),
      (''mod_resource'', ''Resource module''),
      (''mod_scorm'', ''SCORM module''),
      (''mod_survey'', ''Survey module''),
      (''mod_url'', ''URL module''),
      (''mod_wiki'', ''Wiki module''),
      (''mod_workshop'', ''Workshop module''),
      (''tool_dataprivacy'', ''Data privacy tools''),
      (''tool_lp'', ''Learning plans''),
      (''tool_mobile'', ''Mobile app support''),
      (''tool_policy'', ''Policy management''),
      (''tool_usertours'', ''User tours''),
      (''enrol_guest'', ''Guest enrollment''),
      (''enrol_manual'', ''Manual enrollment''),
      (''enrol_self'', ''Self enrollment''),
      (''message_airnotifier'', ''Airnotifier messaging''),
      (''message_popup'', ''Popup messaging''),
      (''gradereport_grader'', ''Grader report''),
      (''gradereport_overview'', ''Overview report''),
      (''gradereport_user'', ''User grade report'')]"

text \<open>The \<open>Set\<close> of tags in insertion order.\<close>

fun tagSet_of :: "jsval list \<Rightarrow> string list \<Rightarrow> exn + string list" where
  "tagSet_of [] tagSet = Inr tagSet"
| "tagSet_of (func # funcs) tagSet =
     (case js_member func ''name'' of
        Inl e \<Rightarrow> Inl e
      | Inr name \<Rightarrow>
          (case getTagFromFunctionName name of
             Inl e \<Rightarrow> Inl e
           | Inr tag \<Rightarrow> tagSet_of funcs (if tag \<in> set tagSet then tagSet else tagSet @ [tag])))"

text \<open>\<open>generateTags\<close>. The description is looked up among the table's own entries.\<close>

definition generateTags :: "jsval \<Rightarrow> exn + jsval" where
  "generateTags functions =
     (case iterate functions of
        Inl e \<Rightarrow> Inl e
      | Inr funcs \<Rightarrow>
          (case tagSet_of funcs [] of
             Inl e \<Rightarrow> Inl e
           | Inr tagSet \<Rightarrow>
               Inr (JArr (map (\<lambda>tag.
                      JObj [(''name'', JStr tag),
                            (''description'',
                             JStr (case map_of tagDescriptions tag of
                                     Some d \<Rightarrow> d
                                   | None \<Rightarrow> tag @ '' functions''))])
                    (sort tagSet)))))"

subsection \<open>generateOpenAPISpec\<close>

definition json_content :: "string \<Rightarrow> jsval" where
  "json_content ref =
     JObj [(''application/json'', JObj [(''schema'', JObj [(''$ref'', JStr ref)])])]"

text \<open>The path item \<open>paths[path]\<close> of one function, given its name (a string by then) and
  the names of its two component schemas.\<close>

definition path_item :: "jsval \<Rightarrow> string \<Rightarrow> string \<Rightarrow> string \<Rightarrow> string \<Rightarrow> jsval" where
  "path_item func name tag requestSchemaName responseSchemaName =
     JObj [(''post'', JObj (spreads
       [(''operationId'', JStr name),
        (''summary'', js_or (js_get func ''description'') (JStr (''Call '' @ name))),
        (''description'', js_or (js_get func ''description'') JUndef),
        (''tags'', JArr [JStr tag])]
       [js_and (js_get func ''capabilities'')
          (JObj [(''x-moodle-capabilities'', js_get func ''capabilities'')]),
        (if js_get func ''ajax'' \<noteq> JUndef
         then JObj [(''x-moodle-ajax'', js_get func ''ajax'')] else JBool False),
        (if js_get func ''loginrequired'' \<noteq> JUndef
         then JObj [(''x-moodle-login-required'', js_get func ''loginrequired'')] else JBool False),
        JObj [(''requestBody'', JObj [
                 (''required'', JBool True),
                 (''content'', JObj [(''application/x-www-form-urlencoded'',
                    JObj [(''schema'', JObj [(''$ref'',
                       JStr (''#/components/schemas/'' @ requestSchemaName))])])])]),
              (''responses'', JObj [
                 (''200'', JObj [(''description'', JStr ''Successful response''),
                    (''content'', json_content (''#/components/schemas/'' @ responseSchemaName))]),
                 (''400'', JObj [(''description'', JStr ''Bad request - invalid parameters''),
                    (''content'', json_content ''#/components/schemas/MoodleError'')]),
                 (''401'', JObj [(''description'', JStr ''Unauthorized - invalid or missing token''),
                    (''content'', json_content ''#/components/schemas/MoodleError'')])]),
              (''security'', JArr [JObj [(''wstoken'', JArr [])]])]]))]"

text \<open>The loop over the functions, on the state \<open>components.schemas\<close> and \<open>paths\<close>.\<close>

fun functions_loop :: "jsval list \<Rightarrow> jsobject \<Rightarrow> jsobject \<Rightarrow> exn + (jsobject \<times> jsobject)" where
  "functions_loop [] schemas paths = Inr (schemas, paths)"
| "functions_loop (func # funcs) schemas paths =
     (case js_member func ''name'' of
        Inl e \<Rightarrow> Inl e
      | Inr fname \<Rightarrow>
     (case toPascalCase fname of
        Inl e \<Rightarrow> Inl e
      | Inr pascalName \<Rightarrow>
     (let requestSchemaName = pascalName @ ''Request'';
          responseSchemaName = pascalName @ ''Response''
      in
     (case (if truthy (js_get func ''parameters'')
            then moodleTypeToOpenAPI (js_get func ''parameters'')
                   (JObj [(''schemas'', JObj schemas)]) requestSchemaName
            else Inr (JObj [(''type'', JStr ''object''), (''properties'', JObj [])])) of
        Inl e \<Rightarrow> Inl e
      | Inr request \<Rightarrow>
     (let schemas1 = obj_assign requestSchemaName request schemas
      in
     (case (if truthy (js_get func ''returns'')
            then moodleTypeToOpenAPI (js_get func ''returns'')
                   (JObj [(''schemas'', JObj schemas1)]) responseSchemaName
            else Inr (JObj [(''type'', JStr ''object''), (''nullable'', JBool True)])) of
        Inl e \<Rightarrow> Inl e
      | Inr response \<Rightarrow>
     (let schemas2 = obj_assign responseSchemaName response schemas1
      in
     (case getTagFromFunctionName fname of
        Inl e \<Rightarrow> Inl e
      | Inr tag \<Rightarrow>
          functions_loop funcs schemas2
            (obj_assign (''/webservice/rest/'' @ String_value fname)
               (path_item func (String_value fname) tag requestSchemaName responseSchemaName)
               paths)))))))))"

definition MoodleError_schema :: jsval where
  "MoodleError_schema =
     JObj [(''type'', JStr ''object''),
           (''properties'', JObj [
              (''exception'', JObj [(''type'', JStr ''string''),
                                    (''description'', JStr ''The exception class name'')]),
              (''errorcode'', JObj [(''type'', JStr ''string''),
                                    (''description'', JStr ''The error code'')]),
              (''message'', JObj [(''type'', JStr ''string''),
                                  (''description'', JStr ''Human-readable error message'')]),
              (''debuginfo'', JObj [(''type'', JStr ''string''),
                 (''description'', JStr ''Debug information (only in development mode)'')])]),
           (''required'', JArr [JStr ''message''])]"

definition MoodleWarning_schema :: jsval where
  "MoodleWarning_schema =
     JObj [(''type'', JStr ''object''),
           (''properties'', JObj [
              (''item'', JObj [(''type'', JStr ''string''),
                               (''description'', JStr ''Item that triggered the warning'')]),
              (''itemid'', JObj [(''type'', JStr ''integer''),
                                 (''description'', JStr ''ID of the item'')]),
              (''warningcode'', JObj [(''type'', JStr ''string''),
                                      (''description'', JStr ''Warning code'')]),
              (''message'', JObj [(''type'', JStr ''string''),
                                  (''description'', JStr ''Warning message'')])]),
           (''required'', JArr [JStr ''warningcode'', JStr ''message''])]"

text \<open>The text of \<open>info.description\<close>; \<open>now\<close> is \<open>new Date().toISOString()\<close> at the call.\<close>

definition info_description :: "string \<Rightarrow> jsval \<Rightarrow> string" where
  "info_description now schema =
     ''Auto-generated OpenAPI specification for Moodle Web Services.'' @ [newline, newline]
     @ ''Moodle Release: '' @ String_value (js_or (js_get schema ''moodleRelease'') (JStr ''unknown''))
     @ [newline] @ ''Generated: '' @ now"

text \<open>The document built from the loop's final \<open>components.schemas\<close> and \<open>paths\<close> and from
  the tags.\<close>

definition openapi_document :: "string \<Rightarrow> jsval \<Rightarrow> jsobject \<Rightarrow> jsobject \<Rightarrow> jsval \<Rightarrow> jsval" where
  "openapi_document now schema schemas paths tags =
     JObj [(''openapi'', JStr ''3.1.0''),
           (''info'', JObj [
              (''title'', JStr ''Moodle Web Services API''),
              (''version'', js_or (js_get schema ''moodleVersion'') (JStr ''unknown'')),
              (''description'', JStr (info_description now schema)),
              (''contact'', JObj [(''name'', JStr ''Moodle''), (''url'', JStr ''https://moodle.org'')]),
              (''license'', JObj [(''name'', JStr ''GPL-3.0''),
                                  (''url'', JStr ''https://www.gnu.org/licenses/gpl-3.0.html'')])]),
           (''servers'', JArr [JObj [
              (''url'', JStr ''{baseUrl}''),
              (''description'', JStr ''Moodle instance''),
              (''variables'', JObj [(''baseUrl'', JObj [
                 (''default'', JStr ''https://moodle.example.com''),
                 (''description'', JStr ''The base URL of your Moodle installation'')])])]]),
           (''security'', JArr [JObj [(''wstoken'', JArr [])]]),
           (''tags'', tags),
           (''paths'', JObj paths),
           (''components'', JObj (spreads []
              [JObj [(''schemas'', JObj schemas)],
               JObj [(''securitySchemes'', JObj [(''wstoken'', JObj [
                  (''type'', JStr ''apiKey''),
                  (''in'', JStr ''query''),
                  (''name'', JStr ''wstoken''),
                  (''description'', JStr (''Web service token. Generate in Moodle: ''
                     @ ''Site administration > Plugins > Web services > Manage tokens''))])])]]))]"

text \<open>\<open>generateOpenAPISpec(schema, schemaName)\<close>, called when the clock reads \<open>now\<close>.\<close>

definition generateOpenAPISpec :: "string \<Rightarrow> jsval \<Rightarrow> jsval \<Rightarrow> exn + jsval" where
  "generateOpenAPISpec now schema schemaName =
     (case js_member schema ''functions'' of
        Inl e \<Rightarrow> Inl e
      | Inr fs \<Rightarrow>
     (case iterate (js_or fs (JArr [])) of
        Inl e \<Rightarrow> Inl e
      | Inr funcs \<Rightarrow>
     (case functions_loop funcs [] [] of
        Inl e \<Rightarrow> Inl e
      | Inr (schemas, paths) \<Rightarrow>
     (let schemas' = obj_assign ''MoodleWarning'' MoodleWarning_schema
                       (obj_assign ''MoodleError'' MoodleError_schema schemas)
      in
     (case generateTags (js_or fs (JArr [])) of
        Inl e \<Rightarrow> Inl e
      | Inr tags \<Rightarrow> Inr (openapi_document now schema schemas' paths tags))))))"

text \<open>A small schema document with one function.\<close>

definition sample_schema :: jsval where
  "sample_schema =
     JObj [(''moodleVersion'', JStr ''2024100700''),
           (''moodleRelease'', JStr ''4.5''),
           (''functions'', JArr [
              JObj [(''name'', JStr ''core_course_get_courses''),
                    (''description'', JStr ''Return course details''),
                    (''parameters'', JObj [(''type'', JStr ''object''),
                       (''properties'', JObj [(''ids'', JObj [(''type'', JStr ''array''),
                          (''items'', JObj [(''type'', JStr ''integer'')])])])])]])]"

section \<open>Verified properties\<close>

subsection \<open>Parameter serializer\<close>

lemma length_scalar_leaves: "length (scalar_leaves v) = count_scalars v"
  by (induction v rule: count_scalars.induct) (auto simp: length_concat comp_def intro!: arg_cong[where f=sum_list] split: prod.splits)

lemma fold_values:
  assumes "\<And>x sp. x \<in> set xs \<Longrightarrow> map snd (f x sp) = map snd sp @ g x"
  shows "map snd (fold f xs sp) = map snd sp @ concat (map g xs)"
  using assms by (induction xs arbitrary: sp) auto

lemma values_enumerate:
  "concat (map (\<lambda>(i, x). g x) (List.enumerate n xs)) = concat (map g xs)"
  by (induction xs arbitrary: n) auto

lemma values_entries_of_array:
  "concat (map (\<lambda>(k, v). g v) (map (\<lambda>(i, x). (String_nat i, x)) (List.enumerate n ys)))
     = concat (map g ys)"
  by (induction ys arbitrary: n) auto

lemma values_Object_entries_array:
  "concat (map (\<lambda>(k, v). g v) (Object_entries (JArr ys))) = concat (map g ys)"
  by (simp add: values_entries_of_array del: map_map)

lemma appendParam_values:
  "map snd (appendParam key v sp) = map snd sp @ scalar_leaves v"
proof (induction key v sp rule: appendParam.induct)
  case (6 key xs searchParams)
  let ?inner = "\<lambda>arrayKey. (\<lambda>(subKey, subValue). appendParam (bracket arrayKey subKey) subValue)"
  let ?step = "\<lambda>(index, item) sp.
        let arrayKey = bracket key (String_nat index) in
        (case item of
           JObj es \<Rightarrow> fold (?inner arrayKey) es sp
         | JArr ys \<Rightarrow> fold (?inner arrayKey) (Object_entries (JArr ys)) sp
         | _ \<Rightarrow> appendParam arrayKey item sp)"
  have step: "map snd (?step x sp) = map snd sp @ (\<lambda>(i, x). scalar_leaves x) x"
    if "x \<in> set (List.enumerate 0 xs)" for x sp
  proof -
    obtain index item where x: "x = (index, item)" by (cases x)
    let ?ak = "bracket key (String_nat index)"
    show ?thesis
    proof (cases item)
      case (JObj es)
      have "map snd (fold (?inner ?ak) es sp) = map snd sp @ concat (map (\<lambda>(k, v). scalar_leaves v) es)"
        by (rule fold_values) (use 6 that x JObj in auto)
      then show ?thesis using x JObj by simp
    next
      case (JArr ys)
      have "map snd (fold (?inner ?ak) (Object_entries (JArr ys)) sp)
            = map snd sp @ concat (map (\<lambda>(k, v). scalar_leaves v) (Object_entries (JArr ys)))"
        by (rule fold_values) (use 6 that x JArr in \<open>force simp: image_iff\<close>)
      then show ?thesis using x JArr
        by (simp add: values_Object_entries_array del: Object_entries.simps)
    qed (use 6 that x in auto)
  qed
  have "map snd (fold ?step (List.enumerate 0 xs) searchParams)
        = map snd searchParams @ concat (map (\<lambda>(i, x). scalar_leaves x) (List.enumerate 0 xs))"
    by (rule fold_values) (rule step)
  then show ?case by (simp add: values_enumerate)
next
  case (7 key es searchParams)
  have "map snd (fold (\<lambda>(subKey, subValue). appendParam (bracket key subKey) subValue) es searchParams)
        = map snd searchParams @ concat (map (\<lambda>(k, v). scalar_leaves v) es)"
    by (rule fold_values) (auto simp: 7)
  then show ?case by simp
qed (simp_all add: append_def)

lemma serializeParams_values:
  "map snd (serializeParams params prefix) = scalar_leaves (JObj params)"
proof -
  have "map snd (fold (\<lambda>(key, v). appendParam (if prefix \<noteq> [] then bracket prefix key else key) v) params [])
        = map snd ([]::URLSearchParams) @ concat (map (\<lambda>(k, v). scalar_leaves v) params)"
    by (rule fold_values) (auto simp: appendParam_values)
  then show ?thesis by (simp add: serializeParams_def)
qed

text \<open>
  Claim C5. For every parameter mapping (values of the datatype are finite trees, hence
  acyclic), \<open>serializeParams\<close> emits exactly one entry per terminal scalar reachable in the
  input: the emitted values are the scalars in document order, and their number is the number
  of scalars. A \<open>null\<close> or \<open>undefined\<close> branch contributes no entry. The function is total
  and has no failing branch.
\<close>

theorem serializeParams_one_entry_per_scalar:
  "map snd (serializeParams params prefix) = scalar_leaves (JObj params) \<and>
   length (serializeParams params prefix) = count_scalars (JObj params)"
proof -
  have "length (serializeParams params prefix) = length (map snd (serializeParams params prefix))"
    by simp
  also have "\<dots> = count_scalars (JObj params)"
    unfolding serializeParams_values by (rule length_scalar_leaves)
  finally show ?thesis using serializeParams_values by simp
qed

text \<open>
  Claim C6. \<open>{a: [{x: 1}, {x: 2}]}\<close> serializes to \<open>a[0][x]=1\<close>, \<open>a[1][x]=2\<close> in this order,
  and \<open>{flag: true, missing: null}\<close> to the single entry \<open>flag=1\<close>.
\<close>

theorem serializeParams_examples:
  "serializeParams [(''a'', JArr [JObj [(''x'', JNum 1)], JObj [(''x'', JNum 2)]])] []
     = [(''a[0][x]'', ''1''), (''a[1][x]'', ''2'')] \<and>
   serializeParams [(''flag'', JBool True), (''missing'', JNull)] [] = [(''flag'', ''1'')]"
  by (simp add: serializeParams_def bracket_def append_def String_num_def String_nat.simps
      digit_char_def enumerate_eq_zip)

subsection \<open>Client construction\<close>

text \<open>
  Claim C3, as the code has it. Constructing a client whose \<open>baseUrl\<close> or \<open>token\<close> is absent
  or empty fails at construction; the value thrown is a plain \<open>Error\<close> whose message is
  the name of the first missing field followed by \<open>is required\<close>.
\<close>

theorem MoodleClient_missing_field:
  assumes "missing (cfg_baseUrl config) \<or> missing (cfg_token config)"
  shows "MoodleClient config =
           Inl (JsError ''Error''
                  ((if missing (cfg_baseUrl config) then ''baseUrl'' else ''token'')
                     @ '' is required''))"
  using assms by (auto simp: MoodleClient_def)

theorem MoodleClient_missing_field_witness:
  "missing (cfg_token \<lparr> cfg_baseUrl = Some ''https://moodle.example.com'', cfg_token = Some '''',
                          cfg_timeout = None, cfg_fetch = None \<rparr>) \<and>
   MoodleClient \<lparr> cfg_baseUrl = Some ''https://moodle.example.com'', cfg_token = Some '''',
                  cfg_timeout = None, cfg_fetch = None \<rparr>
     = Inl (JsError ''Error'' ''token is required'')"
  using MoodleClient_missing_field
    [of "\<lparr> cfg_baseUrl = Some ''https://moodle.example.com'', cfg_token = Some '''',
           cfg_timeout = None, cfg_fetch = None \<rparr>"]
  by simp

text \<open>The error thrown for an absent \<open>baseUrl\<close> is not the validation variant.\<close>

theorem MoodleClient_not_validation_error:
  "MoodleClient \<lparr> cfg_baseUrl = None, cfg_token = Some ''secret'',
                  cfg_timeout = None, cfg_fetch = None \<rparr>
     = Inl (JsError ''Error'' ''baseUrl is required'') \<and>
   \<not> is_validation_error (JsError ''Error'' ''baseUrl is required'')"
  by (simp add: MoodleClient_def)

subsection \<open>Classification of the response body\<close>

text \<open>
  Claim C4. Let the transport answer with a 2xx response whose body parses to an object
  with a \<open>message\<close> field. If the object also has an \<open>exception\<close> or an \<open>errorcode\<close> field,
  \<open>call\<close> fails with the API error built from \<open>message\<close>, the error code (\<open>"unknown"\<close> when
  \<open>errorcode\<close> is absent or null), \<open>exception\<close> and \<open>debuginfo\<close>. If it has neither, \<open>call\<close>
  succeeds and \<open>data\<close> is the parsed body.
\<close>

theorem call_api_error_classification:
  assumes "URL_new pf ''/webservice/rest/server.php'' (baseUrl options) = Inr u"
    and "await_fetch (fetchFn pf options (call_request u (token options) wsfunction params))
           = (tm, Some (Fulfilled response))"
    and "ok response" and "json response = Some (Inr (JObj es))"
    and "js_in ''message'' (JObj es)"
  shows "(js_in ''exception'' (JObj es) \<or> js_in ''errorcode'' (JObj es) \<longrightarrow>
            settled (call pf wsfunction params options) =
              Some (Inl (MoodleApiError (js_get (JObj es) ''message'')
                          (if js_in ''errorcode'' (JObj es)
                              \<and> js_get (JObj es) ''errorcode'' \<noteq> JNull
                              \<and> js_get (JObj es) ''errorcode'' \<noteq> JUndef
                           then js_get (JObj es) ''errorcode'' else JStr ''unknown'')
                          (js_get (JObj es) ''exception'')
                          (js_get (JObj es) ''debuginfo'')))) \<and>
         (\<not> js_in ''exception'' (JObj es) \<and> \<not> js_in ''errorcode'' (JObj es) \<longrightarrow>
            (\<exists>w. settled (call pf wsfunction params options)
                    = Some (Inr \<lparr> data = JObj es, warnings = w \<rparr>)))"
proof -
  let ?d = "JObj es"
  let ?code = "if js_in ''errorcode'' ?d \<and> js_get ?d ''errorcode'' \<noteq> JNull
                    \<and> js_get ?d ''errorcode'' \<noteq> JUndef
               then js_get ?d ''errorcode'' else JStr ''unknown''"
  have code: "(case js_get ?d ''errorcode'' of
                 JUndef \<Rightarrow> JStr ''unknown'' | JNull \<Rightarrow> JStr ''unknown'' | c \<Rightarrow> c) = ?code"
    by (cases "js_in ''errorcode'' ?d") (auto split: jsval.splits option.splits)
  have try_err: "call_try response =
      Some (Inl (MoodleApiError (js_get ?d ''message'') ?code
            (js_get ?d ''exception'') (js_get ?d ''debuginfo'')))"
    if "js_in ''exception'' ?d \<or> js_in ''errorcode'' ?d"
  proof -
    have "isMoodleErrorResponse ?d"
      using assms(5) that by (simp add: isMoodleErrorResponse_def)
    then show ?thesis
      using assms(3,4) code by (simp add: call_try_def)
  qed
  have try_ok: "\<exists>w. call_try response = Some (Inr \<lparr> data = ?d, warnings = w \<rparr>)"
    if "\<not> js_in ''exception'' ?d \<and> \<not> js_in ''errorcode'' ?d"
    using assms(3,4) that by (simp add: call_try_def isMoodleErrorResponse_def)
  show ?thesis
  proof (intro conjI impI)
    assume "js_in ''exception'' ?d \<or> js_in ''errorcode'' ?d"
    then show "settled (call pf wsfunction params options) =
        Some (Inl (MoodleApiError (js_get ?d ''message'') ?code
            (js_get ?d ''exception'') (js_get ?d ''debuginfo'')))"
      using assms(1,2) try_err by (simp add: call_def)
  next
    assume "\<not> js_in ''exception'' ?d \<and> \<not> js_in ''errorcode'' ?d"
    then obtain w where "call_try response = Some (Inr \<lparr> data = ?d, warnings = w \<rparr>)"
      using try_ok by blast
    then have "settled (call pf wsfunction params options)
                 = Some (Inr \<lparr> data = ?d, warnings = w \<rparr>)"
      using assms(1,2) by (simp add: call_def)
    then show "\<exists>w. settled (call pf wsfunction params options)
                 = Some (Inr \<lparr> data = ?d, warnings = w \<rparr>)" ..
  qed
qed

theorem call_api_error_classification_witness:
  "settled (call sample_platform ''core_webservice_get_site_info'' (JObj [])
             (sample_options None
                (Some (answering (JObj [(''message'', JStr ''Invalid token''),
                                        (''errorcode'', JStr ''invalidtoken'')])))))
     = Some (Inl (MoodleApiError (JStr ''Invalid token'') (JStr ''invalidtoken'') JUndef JUndef)) \<and>
   (\<exists>w. settled (call sample_platform ''core_webservice_get_site_info'' (JObj [])
                   (sample_options None (Some (answering (JObj [(''message'', JStr ''x'')])))))
          = Some (Inr \<lparr> data = JObj [(''message'', JStr ''x'')], warnings = w \<rparr>))"
proof -
  let ?e = "[(''message'', JStr ''Invalid token''), (''errorcode'', JStr ''invalidtoken'')]"
  let ?m = "[(''message'', JStr ''x'')]"
  let ?r = "\<lambda>d. \<lparr> ok = True, status = 200, statusText = ''OK'', json = Some (Inr d) \<rparr>"
  have u: "URL_new sample_platform ''/webservice/rest/server.php'' (baseUrl (sample_options None f))
           = Inr (''https://moodle.example.com'' @ ''/webservice/rest/server.php'')" for f
    by (simp add: sample_platform_def sample_options_def)
  have a: "await_fetch (fetchFn sample_platform (sample_options None (Some (answering d))) req)
           = (Armed, Some (Fulfilled (?r d)))" for d req
    by (simp add: fetchFn_def sample_options_def answering_def)
  have w1: "settled (call sample_platform ''core_webservice_get_site_info'' (JObj [])
             (sample_options None (Some (answering (JObj ?e)))))
     = Some (Inl (MoodleApiError (JStr ''Invalid token'') (JStr ''invalidtoken'') JUndef JUndef))"
    using call_api_error_classification
      [where pf = sample_platform and wsfunction = "''core_webservice_get_site_info''"
         and params = "JObj []" and options = "sample_options None (Some (answering (JObj ?e)))"
         and u = "''https://moodle.example.com'' @ ''/webservice/rest/server.php''"
         and tm = Armed and response = "?r (JObj ?e)" and es = "?e"] u a
    by simp
  have w2: "\<exists>w. settled (call sample_platform ''core_webservice_get_site_info'' (JObj [])
                   (sample_options None (Some (answering (JObj ?m)))))
          = Some (Inr \<lparr> data = JObj ?m, warnings = w \<rparr>)"
    using call_api_error_classification
      [where pf = sample_platform and wsfunction = "''core_webservice_get_site_info''"
         and params = "JObj []" and options = "sample_options None (Some (answering (JObj ?m)))"
         and u = "''https://moodle.example.com'' @ ''/webservice/rest/server.php''"
         and tm = Armed and response = "?r (JObj ?m)" and es = "?m"] u a
    by simp
  show ?thesis using w1 w2 by blast
qed

subsection \<open>The deadline\<close>

text \<open>
  Claim C7, as the code has it. The deadline is enforced through the abort signal: if the
  transport has not settled when the timer callback runs and reacts to the abort of its
  signal by rejecting with an \<open>AbortError\<close>, as the platform \<open>fetch\<close> does, then \<open>call\<close> fails
  with the network error \<open>Request timeout after <timeout>ms\<close>, where the timeout is the
  configured one or 30000. If the transport settles before the timer callback runs, with any
  response or with a rejection, the timer is cleared, and a cleared timer does not fire;
  for a response, whatever its status and body, the call then ends as its \<open>try\<close> and
  \<open>catch\<close> blocks decide, and in particular a successful call returns its result.
\<close>

theorem call_deadline:
  assumes "URL_new pf ''/webservice/rest/server.php'' (baseUrl options) = Inr u"
    and "run = fetchFn pf options (call_request u (token options) wsfunction params)"
  shows "((timing run = NeverSettles \<or> timing run = SettlesAfterDeadline s)
            \<and> on_abort run = Some (JsError ''AbortError'' m) \<longrightarrow>
          settled (call pf wsfunction params options) =
            Some (Inl (MoodleNetworkError
                         (''Request timeout after ''
                            @ String_num (case timeout options of None \<Rightarrow> 30000 | Some t \<Rightarrow> t)
                            @ ''ms'') None))) \<and>
         (timing run = SettlesBeforeDeadline s' \<longrightarrow>
          deadline_timer (call pf wsfunction params options) = Some Cleared \<and>
          deadline Cleared = Cleared) \<and>
         (timing run = SettlesBeforeDeadline (Fulfilled response) \<longrightarrow>
          settled (call pf wsfunction params options) =
            map_option
              (\<lambda>r. case r of
                     Inr result \<Rightarrow> Inr result
                   | Inl e \<Rightarrow> Inl (call_catch (case timeout options of None \<Rightarrow> 30000 | Some t \<Rightarrow> t) e))
              (call_try response)) \<and>
         (timing run = SettlesBeforeDeadline (Fulfilled response)
            \<and> call_try response = Some (Inr result) \<longrightarrow>
          settled (call pf wsfunction params options) = Some (Inr result))"
proof (intro conjI impI)
  assume "(timing run = NeverSettles \<or> timing run = SettlesAfterDeadline s)
            \<and> on_abort run = Some (JsError ''AbortError'' m)"
  then have "await_fetch run = (Fired, Some (Rejected (JsError ''AbortError'' m)))"
    by auto
  then show "settled (call pf wsfunction params options) =
            Some (Inl (MoodleNetworkError
                         (''Request timeout after ''
                            @ String_num (case timeout options of None \<Rightarrow> 30000 | Some t \<Rightarrow> t)
                            @ ''ms'') None))"
    using assms by (simp add: call_def)
next
  assume "timing run = SettlesBeforeDeadline s'"
  then have a: "await_fetch run = (Armed, Some s')"
    by simp
  show "deadline_timer (call pf wsfunction params options) = Some Cleared"
  proof (cases s')
    case (Fulfilled response')
    then show ?thesis
      using assms a
      by (cases "call_try response'") (auto simp: call_def split: sum.splits)
  next
    case (Rejected e)
    then show ?thesis
      using assms a by (simp add: call_def)
  qed
next
  show "deadline Cleared = Cleared"
    by simp
next
  assume "timing run = SettlesBeforeDeadline (Fulfilled response)"
  then have a: "await_fetch run = (Armed, Some (Fulfilled response))"
    by simp
  show "settled (call pf wsfunction params options) =
            map_option
              (\<lambda>r. case r of
                     Inr result \<Rightarrow> Inr result
                   | Inl e \<Rightarrow> Inl (call_catch (case timeout options of None \<Rightarrow> 30000 | Some t \<Rightarrow> t) e))
              (call_try response)"
    using assms a
    by (cases "call_try response") (auto simp: call_def split: sum.splits)
next
  assume "timing run = SettlesBeforeDeadline (Fulfilled response)
            \<and> call_try response = Some (Inr result)"
  then have a: "await_fetch run = (Armed, Some (Fulfilled response))"
    and t: "call_try response = Some (Inr result)"
    by auto
  show "settled (call pf wsfunction params options) = Some (Inr result)"
    using assms a t by (simp add: call_def)
qed

theorem call_deadline_witness:
  "settled (call sample_platform ''core_webservice_get_site_info'' (JObj []) (sample_options None None))
     = Some (Inl (MoodleNetworkError ''Request timeout after 30000ms'' None)) \<and>
   settled (call sample_platform ''core_webservice_get_site_info'' (JObj [])
              (sample_options (Some 1500) (Some (answering (JObj [(''sitename'', JStr ''Campus'')])))))
     = Some (Inr \<lparr> data = JObj [(''sitename'', JStr ''Campus'')], warnings = JUndef \<rparr>) \<and>
   deadline_timer (call sample_platform ''core_webservice_get_site_info'' (JObj [])
              (sample_options (Some 1500) (Some (answering (JObj [(''sitename'', JStr ''Campus'')])))))
     = Some Cleared \<and>
   deadline_timer (call sample_platform ''core_webservice_get_site_info'' (JObj [])
              (sample_options (Some 1500) (Some stalling))) = Some Cleared \<and>
   settled (call sample_platform ''core_webservice_get_site_info'' (JObj [])
              (sample_options (Some 1500) (Some stalling))) = None"
proof -
  let ?u = "''https://moodle.example.com'' @ ''/webservice/rest/server.php''"
  let ?d = "JObj [(''sitename'', JStr ''Campus'')]"
  let ?r = "\<lparr> ok = True, status = 200, statusText = ''OK'', json = Some (Inr ?d) \<rparr>"
  let ?st = "\<lparr> ok = True, status = 200, statusText = ''OK'', json = None \<rparr>"
  have u: "URL_new sample_platform ''/webservice/rest/server.php'' (baseUrl (sample_options t f))
           = Inr ?u" for t f
    by (simp add: sample_platform_def sample_options_def)
  have w1: "settled (call sample_platform ''core_webservice_get_site_info'' (JObj [])
                       (sample_options None None))
             = Some (Inl (MoodleNetworkError ''Request timeout after 30000ms'' None))"
    using call_deadline
      [where pf = sample_platform and wsfunction = "''core_webservice_get_site_info''"
         and params = "JObj []" and options = "sample_options None None" and u = ?u
         and m = "''This operation was aborted''", OF u refl]
    by (simp add: fetchFn_def sample_options_def sample_platform_def String_num_def
        String_nat.simps digit_char_def)
  have t: "call_try ?r = Some (Inr \<lparr> data = ?d, warnings = JUndef \<rparr>)"
    by (simp add: call_try_def isMoodleErrorResponse_def)
  have w2: "settled (call sample_platform ''core_webservice_get_site_info'' (JObj [])
                      (sample_options (Some 1500) (Some (answering ?d))))
              = Some (Inr \<lparr> data = ?d, warnings = JUndef \<rparr>) \<and>
            deadline_timer (call sample_platform ''core_webservice_get_site_info'' (JObj [])
                      (sample_options (Some 1500) (Some (answering ?d))))
              = Some Cleared"
    using call_deadline
      [where pf = sample_platform and wsfunction = "''core_webservice_get_site_info''"
         and params = "JObj []" and options = "sample_options (Some 1500) (Some (answering ?d))"
         and u = ?u and response = ?r and s' = "Fulfilled ?r"
         and result = "\<lparr> data = ?d, warnings = JUndef \<rparr>",
       OF u refl] t
    by (simp add: fetchFn_def sample_options_def answering_def)
  have ts: "call_try ?st = None"
    by (simp add: call_try_def)
  have w3: "deadline_timer (call sample_platform ''core_webservice_get_site_info'' (JObj [])
                      (sample_options (Some 1500) (Some stalling))) = Some Cleared \<and>
            settled (call sample_platform ''core_webservice_get_site_info'' (JObj [])
                      (sample_options (Some 1500) (Some stalling))) = None"
    using call_deadline
      [where pf = sample_platform and wsfunction = "''core_webservice_get_site_info''"
         and params = "JObj []" and options = "sample_options (Some 1500) (Some stalling)"
         and u = ?u and response = ?st and s' = "Fulfilled ?st",
       OF u refl] ts
    by (simp add: fetchFn_def sample_options_def stalling_def)
  show ?thesis using w1 w2 w3 by simp
qed

text \<open>A transport that never settles and ignores the abort signal: the timer fires, and the
  call never settles, so it does not fail with a network error.\<close>

theorem call_deadline_ignored_signal:
  "settled (call sample_platform ''core_webservice_get_site_info'' (JObj [])
              (sample_options (Some 50) (Some silent))) = None \<and>
   deadline_timer (call sample_platform ''core_webservice_get_site_info'' (JObj [])
              (sample_options (Some 50) (Some silent))) = Some Fired"
  by (simp add: call_def sample_platform_def sample_options_def silent_def fetchFn_def)

subsection \<open>Request body\<close>

lemma fold_append:
  assumes "\<And>x sp. x \<in> set xs \<Longrightarrow> f x sp = sp @ f x []"
  shows "fold f xs sp = sp @ concat (map (\<lambda>x. f x []) xs)"
  using assms
proof (induction xs arbitrary: sp)
  case Nil
  then show ?case by simp
next
  case (Cons x xs)
  have "fold f (x # xs) sp = fold f xs (f x sp)" by simp
  also have "\<dots> = f x sp @ concat (map (\<lambda>x. f x []) xs)"
    by (rule Cons.IH) (rule Cons.prems, simp)
  also have "f x sp = sp @ f x []" by (rule Cons.prems) simp
  finally show ?case by simp
qed

lemma fold_append_nil:
  assumes "\<And>x sp. x \<in> set xs \<Longrightarrow> f x sp = sp @ f x []"
  shows "fold f xs sp = sp @ fold f xs []"
proof -
  have a: "fold f xs sp = sp @ concat (map (\<lambda>x. f x []) xs)"
    by (rule fold_append) (rule assms)
  have b: "fold f xs [] = [] @ concat (map (\<lambda>x. f x []) xs)"
    by (rule fold_append) (rule assms)
  show ?thesis by (simp only: a b append_Nil)
qed

lemma appendParam_append:
  "appendParam key v sp = sp @ appendParam key v []"
proof (induction "size v" arbitrary: key v sp rule: less_induct)
  case less
  note IH = less.hyps
  show ?case
  proof (cases v)
    case (JArr xs)
    let ?inner = "\<lambda>arrayKey. (\<lambda>(subKey, subValue). appendParam (bracket arrayKey subKey) subValue)"
    let ?step = "\<lambda>(index, item) sp.
          let arrayKey = bracket key (String_nat index) in
          (case item of
             JObj es \<Rightarrow> fold (?inner arrayKey) es sp
           | JArr ys \<Rightarrow> fold (?inner arrayKey) (Object_entries (JArr ys)) sp
           | _ \<Rightarrow> appendParam arrayKey item sp)"
    have step: "?step x sp = sp @ ?step x []"
      if "x \<in> set (List.enumerate 0 xs)" for x sp
    proof -
      obtain index item where x: "x = (index, item)" by (cases x)
      let ?ak = "bracket key (String_nat index)"
      have item_small: "size item < size v"
        using that x JArr by (auto dest: size_enumerate_elem)
      show ?thesis
      proof (cases item)
        case (JObj es)
        have "fold (?inner ?ak) es sp = sp @ fold (?inner ?ak) es []"
        proof (rule fold_append_nil)
          fix e sp' assume e: "e \<in> set es"
          have "(index, JObj es) \<in> set (List.enumerate 0 xs)"
            using that x JObj by simp
          moreover have "(fst e, snd e) \<in> set es" using e by simp
          ultimately have "size (snd e) < Suc (size_list size xs)"
            by (rule size_nested_obj)
          then have "size (snd e) < size v"
            using JArr by simp
          then have "appendParam (bracket ?ak (fst e)) (snd e) sp'
                     = sp' @ appendParam (bracket ?ak (fst e)) (snd e) []"
            by (rule IH)
          then show "?inner ?ak e sp' = sp' @ ?inner ?ak e []"
            by (simp add: case_prod_beta)
        qed
        then show ?thesis using x JObj by simp
      next
        case inner: (JArr ys)
        have "fold (?inner ?ak) (Object_entries (JArr ys)) sp
              = sp @ fold (?inner ?ak) (Object_entries (JArr ys)) []"
        proof (rule fold_append_nil)
          fix e sp' assume e: "e \<in> set (Object_entries (JArr ys))"
          then obtain i where i: "(i, snd e) \<in> set (List.enumerate 0 ys)"
            by (auto simp: image_iff)
          have "(index, JArr ys) \<in> set (List.enumerate 0 xs)"
            using that x inner by simp
          then have "size (snd e) < Suc (size_list size xs)"
            using i by (rule size_nested_arr)
          then have "size (snd e) < size v"
            using JArr by simp
          then have "appendParam (bracket ?ak (fst e)) (snd e) sp'
                     = sp' @ appendParam (bracket ?ak (fst e)) (snd e) []"
            by (rule IH)
          then show "?inner ?ak e sp' = sp' @ ?inner ?ak e []"
            by (simp add: case_prod_beta)
        qed
        then show ?thesis using x inner by (simp del: Object_entries.simps)
      qed (use x in \<open>simp_all add: append_def\<close>)
    qed
    have "fold ?step (List.enumerate 0 xs) sp = sp @ fold ?step (List.enumerate 0 xs) []"
      by (rule fold_append_nil) (rule step)
    then show ?thesis using JArr by simp
  next
    case (JObj es)
    let ?f = "\<lambda>(subKey, subValue). appendParam (bracket key subKey) subValue"
    have "fold ?f es sp = sp @ fold ?f es []"
    proof (rule fold_append_nil)
      fix e sp' assume e: "e \<in> set es"
      have "(fst e, snd e) \<in> set es" using e by simp
      then have "size (snd e) < Suc (size_list (size_prod (\<lambda>_. 0) size) es)"
        by (rule size_entries_elem)
      then have "size (snd e) < size v"
        using JObj by simp
      then have "appendParam (bracket key (fst e)) (snd e) sp'
                 = sp' @ appendParam (bracket key (fst e)) (snd e) []"
        by (rule IH)
      then show "?f e sp' = sp' @ ?f e []"
        by (simp add: case_prod_beta)
    qed
    then show ?thesis using JObj by simp
  qed (simp_all add: append_def)
qed


lemma fold_appendParam:
  "fold (\<lambda>(k, v). appendParam (g k) v) es sp
     = sp @ concat (map (\<lambda>(k, v). appendParam (g k) v []) es)"
proof -
  have "fold (\<lambda>(k, v). appendParam (g k) v) es sp
        = sp @ concat (map (\<lambda>x. (\<lambda>(k, v). appendParam (g k) v) x []) es)"
  proof (rule fold_append)
    fix x :: "'a \<times> jsval" and sp
    show "(\<lambda>(k, v). appendParam (g k) v) x sp = sp @ (\<lambda>(k, v). appendParam (g k) v) x []"
      by (cases x) (simp, rule appendParam_append)
  qed
  also have "(\<lambda>x. (\<lambda>(k, v). appendParam (g k) v) x []) = (\<lambda>(k, v). appendParam (g k) v [])"
    by auto
  finally show ?thesis .
qed

lemma appendParam_JObj_nil:
  "appendParam key (JObj es) [] = concat (map (\<lambda>(k, v). appendParam (bracket key k) v []) es)"
  by (simp add: fold_appendParam)

lemma array_item_nil:
  "(case item of
      JObj es \<Rightarrow> fold (\<lambda>(subKey, subValue). appendParam (bracket arrayKey subKey) subValue) es sp
    | JArr ys \<Rightarrow> fold (\<lambda>(subKey, subValue). appendParam (bracket arrayKey subKey) subValue)
                   (Object_entries (JArr ys)) sp
    | _ \<Rightarrow> appendParam arrayKey item sp)
   = sp @ (if is_object item
           then concat (map (\<lambda>(k, v). appendParam (bracket arrayKey k) v []) (Object_entries item))
           else appendParam arrayKey item [])"
  by (cases item) (simp_all add: fold_appendParam appendParam_append[of _ _ sp] del: Object_entries.simps, simp_all add: append_def)


lemma appendParam_JArr_nil:
  "appendParam key (JArr xs) [] =
     concat (map (\<lambda>(index, item).
        if is_object item
        then concat (map (\<lambda>(k, v). appendParam (bracket (bracket key (String_nat index)) k) v [])
                      (Object_entries item))
        else appendParam (bracket key (String_nat index)) item []) (List.enumerate 0 xs))"
proof -
  let ?step = "\<lambda>(index, item) sp.
        let arrayKey = bracket key (String_nat index) in
        (case item of
           JObj es \<Rightarrow> fold (\<lambda>(subKey, subValue). appendParam (bracket arrayKey subKey) subValue) es sp
         | JArr ys \<Rightarrow> fold (\<lambda>(subKey, subValue). appendParam (bracket arrayKey subKey) subValue)
                        (Object_entries (JArr ys)) sp
         | _ \<Rightarrow> appendParam arrayKey item sp)"
  let ?res = "\<lambda>(index, item).
        if is_object item
        then concat (map (\<lambda>(k, v). appendParam (bracket (bracket key (String_nat index)) k) v [])
                      (Object_entries item))
        else appendParam (bracket key (String_nat index)) item []"
  have step: "?step x sp = sp @ ?res x" for x sp
    by (cases x) (simp only: prod.case Let_def array_item_nil)
  have "fold ?step (List.enumerate 0 xs) [] = [] @ concat (map (\<lambda>x. ?step x []) (List.enumerate 0 xs))"
  proof (rule fold_append)
    fix x sp
    show "?step x sp = sp @ ?step x []"
      by (simp only: step[of x sp] step[of x "[]"] append_Nil)
  qed
  also have "(\<lambda>x. ?step x []) = ?res"
  proof
    fix x show "?step x [] = ?res x" by (simp only: step[of x "[]"] append_Nil)
  qed
  finally show ?thesis by simp
qed

lemma ends_bracket_bracket [simp]: "ends_bracket (bracket key sub)"
  by (simp add: ends_bracket_def bracket_def)

lemma appendParam_keys:
  "e \<in> set (appendParam key v []) \<Longrightarrow> fst e = key \<or> ends_bracket (fst e)"
proof (induction "size v" arbitrary: key v e rule: less_induct)
  case less
  note IH = less.hyps
  show ?case
  proof (cases v)
    case (JArr xs)
    from less.prems obtain index item where
      x: "(index, item) \<in> set (List.enumerate 0 xs)" and
      e: "e \<in> set (if is_object item
            then concat (map (\<lambda>(k, v). appendParam (bracket (bracket key (String_nat index)) k) v [])
                          (Object_entries item))
            else appendParam (bracket key (String_nat index)) item [])"
      unfolding JArr appendParam_JArr_nil by auto
    have item_small: "size item < size v"
      using x JArr by (auto dest: size_enumerate_elem)
    show ?thesis
    proof (cases "is_object item")
      case False
      with e have "e \<in> set (appendParam (bracket key (String_nat index)) item [])" by simp
      from IH[OF item_small this] show ?thesis by auto
    next
      case True
      with e obtain k v' where kv: "(k, v') \<in> set (Object_entries item)"
        and e': "e \<in> set (appendParam (bracket (bracket key (String_nat index)) k) v' [])"
        by auto
      have "size v' < size v"
      proof (cases item)
        case (JObj es)
        with kv x have "size v' < Suc (size_list size xs)" by (auto dest: size_nested_obj)
        then show ?thesis using JArr by simp
      next
        case inner: (JArr ys)
        with kv obtain i where "(i, v') \<in> set (List.enumerate 0 ys)" by (auto simp: image_iff)
        with x inner have "size v' < Suc (size_list size xs)" by (auto dest: size_nested_arr)
        then show ?thesis using JArr by simp
      qed (use True in simp_all)
      from IH[OF this e'] show ?thesis by auto
    qed
  next
    case (JObj es)
    from less.prems obtain k v' where kv: "(k, v') \<in> set es"
      and e': "e \<in> set (appendParam (bracket key k) v' [])"
      unfolding JObj appendParam_JObj_nil by auto
    have "size v' < size v"
      using kv JObj by (auto dest: size_entries_elem)
    from IH[OF this e'] show ?thesis by auto
  qed (use less.prems in \<open>simp_all add: append_def\<close>)
qed

lemma appendParam_object_keys:
  assumes "is_object v" and "e \<in> set (appendParam key v [])"
  shows "ends_bracket (fst e)"
proof (cases v)
  case (JArr xs)
  from assms(2) obtain index item where
    e: "e \<in> set (if is_object item
          then concat (map (\<lambda>(k, v). appendParam (bracket (bracket key (String_nat index)) k) v [])
                        (Object_entries item))
          else appendParam (bracket key (String_nat index)) item [])"
    unfolding JArr appendParam_JArr_nil by auto
  then show ?thesis
    by (cases "is_object item") (auto dest!: appendParam_keys)
next
  case (JObj es)
  from assms(2) show ?thesis
    unfolding JObj appendParam_JObj_nil by (auto dest!: appendParam_keys)
qed (use assms(1) in simp_all)

lemma filter_appendParam_own_key:
  assumes "\<not> ends_bracket K"
  shows "filter (\<lambda>e. fst e = K) (appendParam K v []) = scalar_entry K v"
proof (cases "is_object v")
  case True
  then have "\<forall>e \<in> set (appendParam K v []). fst e \<noteq> K"
    using assms by (auto dest: appendParam_object_keys)
  then have "filter (\<lambda>e. fst e = K) (appendParam K v []) = []"
    by (simp add: filter_empty_conv)
  then show ?thesis using True by (cases v) simp_all
next
  case False
  then show ?thesis by (cases v) (simp_all add: append_def)
qed

lemma filter_appendParam_other_key:
  assumes "\<not> ends_bracket K" and "k \<noteq> K"
  shows "filter (\<lambda>e. fst e = K) (appendParam k v []) = []"
proof -
  have "\<forall>e \<in> set (appendParam k v []). fst e \<noteq> K"
    using assms by (auto dest: appendParam_keys)
  then show ?thesis by (simp add: filter_empty_conv)
qed

lemma serializeParams_concat:
  "serializeParams es [] = concat (map (\<lambda>(k, v). appendParam k v []) es)"
  by (simp add: serializeParams_def fold_appendParam[where g = "\<lambda>k. k"])

lemma filter_serializeParams:
  assumes "\<not> ends_bracket K" and "distinct (map fst es)"
  shows "filter (\<lambda>e. fst e = K) (serializeParams es [])
           = (case map_of es K of None \<Rightarrow> [] | Some v \<Rightarrow> scalar_entry K v)"
  unfolding serializeParams_concat using assms(2)
proof (induction es)
  case Nil
  then show ?case by simp
next
  case (Cons p es)
  obtain k v where p: "p = (k, v)" by (cases p)
  show ?case
  proof (cases "k = K")
    case True
    then have "map_of es K = None"
      using Cons.prems p by (simp add: map_of_eq_None_iff)
    then show ?thesis
      using Cons p True assms(1) by (simp add: filter_appendParam_own_key)
  next
    case False
    then show ?thesis
      using Cons p assms(1) by (simp add: filter_appendParam_other_key)
  qed
qed


lemma keys_insert_new:
  "fst ` set (insert_new k v es) = insert k (fst ` set es)"
proof (induction es)
  case Nil
  then show ?case by simp
next
  case (Cons p es)
  obtain k' v' where p: "p = (k', v')" by (cases p)
  show ?case
    by (cases "key_before k k'") (simp_all add: Cons.IH p insert_commute)
qed

lemma distinct_insert_new:
  "k \<notin> fst ` set es \<Longrightarrow> distinct (map fst es) \<Longrightarrow> distinct (map fst (insert_new k v es))"
proof (induction es)
  case Nil
  then show ?case by simp
next
  case (Cons p es)
  obtain k' v' where p: "p = (k', v')" by (cases p)
  have "k' \<notin> fst ` set (insert_new k v es)"
    using Cons.prems p unfolding keys_insert_new by auto
  then show ?case using Cons p by auto
qed

lemma map_of_insert_new:
  "k \<notin> fst ` set es \<Longrightarrow> map_of (insert_new k v es) x = ((map_of es)(k \<mapsto> v)) x"
  by (induction es) auto

lemma map_fst_replace:
  "map fst (map (\<lambda>(k', v'). (k', if k' = k then v else v')) es) = map fst es"
  by (induction es) auto

lemma map_of_replace:
  "map_of (map (\<lambda>(k', v'). (k', if k' = k then v else v')) es) x
     = (case map_of es x of None \<Rightarrow> None | Some v' \<Rightarrow> Some (if x = k then v else v'))"
  by (induction es) auto

lemma map_of_obj_put: "map_of (obj_put k v es) x = ((map_of es)(k \<mapsto> v)) x"
proof (cases "k \<in> fst ` set es")
  case True
  then obtain v' where "map_of es k = Some v'"
    by (metis map_of_eq_None_iff not_Some_eq)
  then show ?thesis
    using True by (simp add: obj_put_def map_of_replace split: option.splits)
next
  case False
  then show ?thesis
    by (simp add: obj_put_def map_of_insert_new)
qed

lemma distinct_obj_put:
  assumes "distinct (map fst es)"
  shows "distinct (map fst (obj_put k v es))"
proof (cases "k \<in> fst ` set es")
  case True
  then show ?thesis
    using assms by (simp add: obj_put_def map_fst_replace del: map_map)
next
  case False
  then show ?thesis
    using assms by (simp add: obj_put_def distinct_insert_new)
qed

lemma spread_JObj:
  assumes "distinct (map fst ps)"
  shows "map_of (fold (\<lambda>(k, v). obj_put k v) ps target) K
           = (case map_of ps K of Some x \<Rightarrow> Some x | None \<Rightarrow> map_of target K)"
  using assms
proof (induction ps arbitrary: target)
  case Nil
  then show ?case by simp
next
  case (Cons p ps)
  obtain k v where p: "p = (k, v)" by (cases p)
  have none: "map_of ps k = None"
    using Cons.prems p by (simp add: map_of_eq_None_iff)
  have "map_of (fold (\<lambda>(k, v). obj_put k v) ps (obj_put k v target)) K
          = (case map_of ps K of Some x \<Rightarrow> Some x | None \<Rightarrow> map_of (obj_put k v target) K)"
    using Cons.prems by (intro Cons.IH) simp
  then show ?case
    using p none by (simp add: map_of_obj_put split: option.splits)
qed

lemma distinct_spread:
  "distinct (map fst target) \<Longrightarrow> distinct (map fst (fold (\<lambda>(k, v). obj_put k v) ps target))"
  by (induction ps arbitrary: target) (auto simp: distinct_obj_put)

text \<open>
  Claim C1, as the code has it. The body is serialized from the object literal
  \<open>{wstoken, wsfunction, moodlewsrestformat, ...params}\<close>, in which the caller's properties
  are written last. For a parameter object and each of the three protocol keys, the entries of
  the body under that key are: the entry of the injected value when the parameters have no
  own property of that name, and otherwise the entry of the caller's value (a single entry
  for a scalar, none for \<open>null\<close>, \<open>undefined\<close>, an array or an object).
\<close>

theorem call_body_protocol_fields:
  assumes "distinct (map fst ps)"
    and "K = ''wstoken'' \<or> K = ''wsfunction'' \<or> K = ''moodlewsrestformat''"
  shows "filter (\<lambda>e. fst e = K) (body (call_request u tok wsfunction (JObj ps)))
           = scalar_entry K (case map_of ps K of
                               None \<Rightarrow> protocol_value tok wsfunction K
                             | Some v \<Rightarrow> v)"
proof -
  let ?lit = "[(''wstoken'', JStr tok), (''wsfunction'', JStr wsfunction),
               (''moodlewsrestformat'', JStr ''json'')]"
  let ?merged = "fold (\<lambda>(k, v). obj_put k v) ps ?lit"
  have K: "\<not> ends_bracket K"
    using assms(2) by (auto simp: ends_bracket_def)
  have d: "distinct (map fst ?merged)"
    by (rule distinct_spread) simp
  have lit: "map_of ?lit K = Some (protocol_value tok wsfunction K)"
    using assms(2) by (auto simp: protocol_value_def)
  have m: "map_of ?merged K
             = Some (case map_of ps K of None \<Rightarrow> protocol_value tok wsfunction K | Some v \<Rightarrow> v)"
    unfolding spread_JObj[OF assms(1)] lit by (simp split: option.splits)
  have "filter (\<lambda>e. fst e = K) (serializeParams ?merged [])
          = (case map_of ?merged K of None \<Rightarrow> [] | Some v \<Rightarrow> scalar_entry K v)"
    using K d by (rule filter_serializeParams)
  then show ?thesis
    unfolding m by (simp add: call_request_def call_body_def spread_def)
qed

theorem call_body_protocol_fields_witness:
  "filter (\<lambda>e. fst e = ''wstoken'')
     (body (call_request ''https://moodle.example.com/webservice/rest/server.php'' ''secret''
              ''core_course_get_courses'' (JObj [(''ids'', JArr [JNum 1, JNum 2])])))
     = [(''wstoken'', ''secret'')]"
  using call_body_protocol_fields
    [where ps = "[(''ids'', JArr [JNum 1, JNum 2])]" and K = "''wstoken''" and tok = "''secret''"
       and wsfunction = "''core_course_get_courses''"
       and u = "''https://moodle.example.com/webservice/rest/server.php''"]
  by (simp add: protocol_value_def)

text \<open>A caller-supplied \<open>wstoken\<close> replaces the configured token in the body.\<close>

theorem call_body_caller_overrides_token:
  "body (call_request ''https://moodle.example.com/webservice/rest/server.php'' ''secret''
           ''core_course_get_courses'' (JObj [(''wstoken'', JStr ''forged'')]))
     = [(''wstoken'', ''forged''), (''wsfunction'', ''core_course_get_courses''),
        (''moodlewsrestformat'', ''json'')] \<and>
   (''wstoken'', ''secret'') \<notin>
     set (body (call_request ''https://moodle.example.com/webservice/rest/server.php'' ''secret''
                  ''core_course_get_courses'' (JObj [(''wstoken'', JStr ''forged'')])))"
  by (simp add: call_request_def call_body_def spread_def obj_put_def serializeParams_def append_def)

subsection \<open>Schema transformer\<close>

lemma array_index_None: "k \<noteq> [] \<Longrightarrow> \<not> is_digit (hd k) \<Longrightarrow> array_index k = None"
  by (cases k) (auto simp: array_index_def)

lemma insert_new_plain: "array_index k = None \<Longrightarrow> insert_new k v es = es @ [(k, v)]"
  by (induction es) (auto simp: key_before_def)

lemmas schema_eval = moodleTypeToOpenAPI.simps spreads_def spread_def obj_put_def
  description_part_def default_part_def nullable_part_def js_and_def permissive_def
  is_required_def obj_assign_def insert_new_plain array_index_None is_digit_def key_before_def

lemma js_get_is_JObj: "js_get v key = x \<Longrightarrow> x \<noteq> JUndef \<Longrightarrow> \<exists>es. v = JObj es"
  by (cases v) auto

lemma Object_entries_falsy: "\<not> truthy v \<Longrightarrow> Object_entries v = []"
  by (cases v) auto

lemma spread_falsy: "\<not> truthy v \<Longrightarrow> spread base v = base"
  by (simp add: spread_def Object_entries_falsy)

lemma spread_single: "spread base (JObj [(k, v)]) = obj_put k v base"
  by (simp add: spread_def)

lemma js_get_description_part:
  "k \<noteq> ''description'' \<Longrightarrow>
   map_of (spread base (description_part schema)) k = map_of base k"
  by (cases "truthy (js_get schema ''description'')")
     (simp_all add: description_part_def js_and_def spread_falsy spread_single map_of_obj_put)

lemma is_required_marked:
  assumes "js_get v ''type'' = JStr t"
    and "js_get v ''required'' = JBool True
           \<or> js_get schema ''required'' = JArr rs \<and> JStr key \<in> set rs"
    and "js_get schema ''required'' = JUndef \<or> js_get schema ''required'' = JArr rs"
  shows "is_required schema key v = Inr True"
proof (cases "js_get schema ''required'' = JArr rs \<and> JStr key \<in> set rs")
  case True
  then show ?thesis by (simp add: is_required_def)
next
  case False
  with assms(2) have own: "js_get v ''required'' = JBool True" by blast
  from assms(1) obtain es where "v = JObj es"
    using js_get_is_JObj by blast
  then have "required_is_true v = Inr True" using own by simp
  then show ?thesis using assms(3) by (auto simp: is_required_def split: bool.splits)
qed

lemma is_required_unmarked:
  assumes "js_get v ''required'' \<noteq> JBool True" and "js_get v ''type'' = JStr t"
    and "js_get schema ''required'' = JUndef
           \<or> js_get schema ''required'' = JArr rs \<and> JStr key \<notin> set rs"
  shows "is_required schema key v = Inr False"
proof -
  from assms(2) obtain es where "v = JObj es"
    using js_get_is_JObj by blast
  then have "required_is_true v = Inr False" using assms(1) by simp
  then show ?thesis using assms(3) by (auto simp: is_required_def split: bool.splits)
qed

lemma scalar_converts:
  assumes "js_get v ''type'' = JStr t"
    and "t = ''integer'' \<or> t = ''number'' \<or> t = ''boolean'' \<or> t = ''string''"
  shows "\<exists>r. moodleTypeToOpenAPI v components prefix = Inr r"
proof -
  from assms(1) obtain es where "v = JObj es"
    using js_get_is_JObj by blast
  then have "truthy v" by simp
  then show ?thesis
    using assms by (subst moodleTypeToOpenAPI.simps) auto
qed

text \<open>
  Claim C8. Take an object schema with exactly two properties: a scalar \<open>p\<close> that is
  required, through its own \<open>required: true\<close> or through the object's \<open>required\<close> array
  listing it, and an array of objects \<open>q\<close> that is optional, neither marked
  \<open>required: true\<close> nor listed in that array (which may be absent when \<open>p\<close> carries its own
  mark). If the array property itself transforms without error, the object transforms to a
  schema whose \<open>required\<close> member is the list holding \<open>p\<close> only.
\<close>

theorem moodleTypeToOpenAPI_required_list:
  assumes "p \<noteq> q"
    and "js_get schema ''type'' = JStr ''object''"
    and "js_get schema ''properties'' = JObj [(p, sp), (q, sq)]
           \<or> js_get schema ''properties'' = JObj [(q, sq), (p, sp)]"
    and "js_get schema ''required'' = JUndef
           \<or> js_get schema ''required'' = JArr rs \<and> JStr q \<notin> set rs"
    and "js_get sp ''type'' = JStr t"
    and "t = ''integer'' \<or> t = ''number'' \<or> t = ''boolean'' \<or> t = ''string''"
    and "js_get sp ''required'' = JBool True
           \<or> js_get schema ''required'' = JArr rs \<and> JStr p \<in> set rs"
    and "js_get sq ''type'' = JStr ''array''"
    and "js_get (js_get sq ''items'') ''type'' = JStr ''object''"
    and "js_get sq ''required'' \<noteq> JBool True"
    and "moodleTypeToOpenAPI sq components (prefix @ ''_'' @ q) = Inr r"
  shows "\<exists>res. moodleTypeToOpenAPI schema components prefix = Inr res
               \<and> js_get res ''required'' = JArr [JStr p]"
proof -
  obtain es where schema: "schema = JObj es"
    using assms(2) js_get_is_JObj by blast
  obtain c where c: "moodleTypeToOpenAPI sp components (prefix @ ''_'' @ p) = Inr c"
    using scalar_converts[OF assms(5,6)] by blast
  have rp: "is_required schema p sp = Inr True"
    using assms(5) assms(7) by (rule is_required_marked) (use assms(4) in auto)
  have rq: "is_required schema q sq = Inr False"
    using assms(10) assms(8) assms(4) by (rule is_required_unmarked)
  have loop: "\<exists>props. object_loop schema
                 (map (\<lambda>(key, v). (key, v, moodleTypeToOpenAPI v components (prefix @ ''_'' @ key)))
                    (Object_entries (js_get schema ''properties''))) [] []
               = Inr (props, [JStr p])"
    using assms(3) c assms(11) rp rq by auto
  then obtain props where props: "object_loop schema
                 (map (\<lambda>(key, v). (key, v, moodleTypeToOpenAPI v components (prefix @ ''_'' @ key)))
                    (Object_entries (js_get schema ''properties''))) [] []
               = Inr (props, [JStr p])"
    by blast
  let ?res = "JObj (spreads [(''type'', JStr ''object''), (''properties'', JObj props)]
                      [JObj [(''required'', JArr [JStr p])], description_part schema])"
  have "moodleTypeToOpenAPI schema components prefix = Inr ?res"
    using assms(2,3) schema props by (subst moodleTypeToOpenAPI.simps) auto
  moreover have "js_get ?res ''required'' = JArr [JStr p]"
    by (simp add: spreads_def js_get_description_part spread_single map_of_obj_put)
  ultimately show ?thesis by blast
qed

theorem moodleTypeToOpenAPI_required_list_witness:
  "(\<exists>res. moodleTypeToOpenAPI
            (JObj [(''type'', JStr ''object''),
                   (''properties'', JObj [
                      (''id'', JObj [(''type'', JStr ''integer'')]),
                      (''tags'', JObj [(''type'', JStr ''array''),
                                       (''items'', JObj [(''type'', JStr ''object''),
                                          (''properties'', JObj [(''name'',
                                             JObj [(''type'', JStr ''string'')])])])])]),
                   (''required'', JArr [JStr ''id''])])
            (JObj []) ''GetTagsRequest'' = Inr res
         \<and> js_get res ''required'' = JArr [JStr ''id'']) \<and>
   (\<exists>res. moodleTypeToOpenAPI
            (JObj [(''type'', JStr ''object''),
                   (''properties'', JObj [
                      (''tags'', JObj [(''type'', JStr ''array''), (''required'', JBool False),
                                       (''items'', JObj [(''type'', JStr ''object''),
                                          (''properties'', JObj [(''name'',
                                             JObj [(''type'', JStr ''string'')])])])]),
                      (''id'', JObj [(''type'', JStr ''integer''), (''required'', JBool True)])])])
            (JObj []) ''GetTagsRequest'' = Inr res
         \<and> js_get res ''required'' = JArr [JStr ''id''])"
proof -
  let ?items = "JObj [(''type'', JStr ''object''),
                      (''properties'', JObj [(''name'', JObj [(''type'', JStr ''string'')])])]"
  let ?sp1 = "JObj [(''type'', JStr ''integer'')]"
  let ?sq1 = "JObj [(''type'', JStr ''array''), (''items'', ?items)]"
  let ?sp2 = "JObj [(''type'', JStr ''integer''), (''required'', JBool True)]"
  let ?sq2 = "JObj [(''type'', JStr ''array''), (''required'', JBool False), (''items'', ?items)]"
  let ?r = "JObj [(''type'', JStr ''array''), (''items'', ?items)]"
  have r1: "moodleTypeToOpenAPI ?sq1 (JObj []) (''GetTagsRequest'' @ ''_'' @ ''tags'') = Inr ?r"
    by code_simp
  have r2: "moodleTypeToOpenAPI ?sq2 (JObj []) (''GetTagsRequest'' @ ''_'' @ ''tags'') = Inr ?r"
    by code_simp
  have listed: "\<exists>res. moodleTypeToOpenAPI
            (JObj [(''type'', JStr ''object''),
                   (''properties'', JObj [(''id'', ?sp1), (''tags'', ?sq1)]),
                   (''required'', JArr [JStr ''id''])])
            (JObj []) ''GetTagsRequest'' = Inr res
         \<and> js_get res ''required'' = JArr [JStr ''id'']"
    using moodleTypeToOpenAPI_required_list
      [where p = "''id''" and q = "''tags''" and sp = ?sp1 and sq = ?sq1 and t = "''integer''"
         and rs = "[JStr ''id'']" and r = ?r and components = "JObj []"
         and prefix = "''GetTagsRequest''"
         and schema = "JObj [(''type'', JStr ''object''),
                   (''properties'', JObj [(''id'', ?sp1), (''tags'', ?sq1)]),
                   (''required'', JArr [JStr ''id''])]", OF _ _ _ _ _ _ _ _ _ _ r1]
    by simp
  have flagged: "\<exists>res. moodleTypeToOpenAPI
            (JObj [(''type'', JStr ''object''),
                   (''properties'', JObj [(''tags'', ?sq2), (''id'', ?sp2)])])
            (JObj []) ''GetTagsRequest'' = Inr res
         \<and> js_get res ''required'' = JArr [JStr ''id'']"
    using moodleTypeToOpenAPI_required_list
      [where p = "''id''" and q = "''tags''" and sp = ?sp2 and sq = ?sq2 and t = "''integer''"
         and rs = "[]" and r = ?r and components = "JObj []"
         and prefix = "''GetTagsRequest''"
         and schema = "JObj [(''type'', JStr ''object''),
                   (''properties'', JObj [(''tags'', ?sq2), (''id'', ?sp2)])]",
       OF _ _ _ _ _ _ _ _ _ _ r2]
    by simp
  show ?thesis using listed flagged by blast
qed

text \<open>
  Claim C9 at a nullable boolean. The \<open>boolean\<close> case builds its result without the
  \<open>nullable\<close> member that the \<open>integer\<close>, \<open>number\<close> and \<open>string\<close> cases add: for the same
  input with the type tag \<open>string\<close> the member is emitted, for \<open>boolean\<close> it is dropped.
\<close>

theorem moodleTypeToOpenAPI_boolean_drops_nullable:
  "moodleTypeToOpenAPI (JObj [(''type'', JStr ''boolean''), (''nullable'', JBool True)]) components prefix
     = Inr (JObj [(''type'', JStr ''boolean'')]) \<and>
   moodleTypeToOpenAPI (JObj [(''type'', JStr ''string''), (''nullable'', JBool True)]) components prefix
     = Inr (JObj [(''type'', JStr ''string''), (''nullable'', JBool True)])"
  by (simp add: schema_eval)

subsection \<open>YAML emitter\<close>

lemma startsWith_single: "startsWith v [c] \<longleftrightarrow> v \<noteq> [] \<and> hd v = c"
  by (cases v) auto

lemma str_includes_single: "str_includes v [c] \<longleftrightarrow> c \<in> set v"
  by (induction v) (auto simp: startsWith_single)

lemma endsWith_single: "endsWith v [c] \<longleftrightarrow> v \<noteq> [] \<and> last v = c"
  by (cases v rule: rev_cases) (auto simp: endsWith_def)

lemma starts_with_digit_hd: "starts_with_digit v \<longleftrightarrow> v \<noteq> [] \<and> is_digit (hd v)"
  by (cases v) (auto simp: starts_with_digit_def)

lemma needs_quoting_applied: "needs_quoting v = applied_quoting v"
  unfolding needs_quoting_def applied_quoting_def reserved_words_def
  by (auto simp: startsWith_single str_includes_single endsWith_single starts_with_digit_hd)

text \<open>
  Claim C10, as the code has it. A string is wrapped in double quotes, with embedded double
  quotes escaped and line feeds written \<open>\n\<close>, exactly when it is empty, contains a colon, a
  hash or a line feed, starts or ends with a space character, starts with a digit, or is a
  reserved word in any letter case; every other string is rendered bare. Emitting
  \<open>{a: "true", b: 1, c: [1, 2]}\<close> gives the lines \<open>a: "true"\<close>, \<open>b: 1\<close>, \<open>c:\<close>, \<open>- 1\<close>
  and \<open>- 2\<close>, the last two indented by two spaces.
\<close>

theorem formatYamlValue_quoting:
  "formatYamlValue (JStr v) = (if applied_quoting v then quoted v else v) \<and>
   quoted v = [dquote] @ escape_newlines (escape_quotes v) @ [dquote] \<and>
   jsonToYaml (JObj [(''a'', JStr ''true''), (''b'', JNum 1), (''c'', JArr [JNum 1, JNum 2])]) 0
     = ''a: '' @ [dquote] @ ''true'' @ [dquote, newline] @
       ''b: 1'' @ [newline] @
       ''c:'' @ [newline] @ ''  - 1'' @ [newline] @ ''  - 2'' @ [newline]"
proof (intro conjI)
  show "formatYamlValue (JStr v) = (if applied_quoting v then quoted v else v)"
    by (simp add: needs_quoting_applied)
  show "quoted v = [dquote] @ escape_newlines (escape_quotes v) @ [dquote]"
    by (simp add: quoted_def)
  show "jsonToYaml (JObj [(''a'', JStr ''true''), (''b'', JNum 1), (''c'', JArr [JNum 1, JNum 2])]) 0
     = ''a: '' @ [dquote] @ ''true'' @ [dquote, newline] @
       ''b: 1'' @ [newline] @
       ''c:'' @ [newline] @ ''  - 1'' @ [newline] @ ''  - 2'' @ [newline]"
    by code_simp
qed

text \<open>A leading tab is white space, yet the string is rendered bare; a string with a line
  feed inside meets none of the stated conditions, yet it is quoted.\<close>

theorem formatYamlValue_not_stated_rule:
  "stated_quoting [CHR 0x09, CHR ''x''] \<and>
   formatYamlValue (JStr [CHR 0x09, CHR ''x'']) = [CHR 0x09, CHR ''x''] \<and>
   \<not> stated_quoting [CHR ''a'', newline, CHR ''b''] \<and>
   formatYamlValue (JStr [CHR ''a'', newline, CHR ''b''])
     = [dquote, CHR ''a'', backslash, CHR ''n'', CHR ''b'', dquote]"
  by code_simp

subsection \<open>OpenAPI document\<close>

text \<open>
  Claim C2, as the code has it. \<open>generateOpenAPISpec\<close> reads the clock: its
  \<open>info.description\<close> ends with the time of the call. Whether it throws, and what it throws,
  does not depend on the clock; two calls on the same schema document at clock readings
  \<open>now\<close> and \<open>now'\<close> return documents that agree on every top-level member other than
  \<open>info\<close> and on every member of \<open>info\<close> other than \<open>description\<close>, and the two
  descriptions are the same text ending in the respective clock reading.
\<close>

theorem generateOpenAPISpec_clock:
  "(generateOpenAPISpec now schema schemaName = Inl e \<longrightarrow>
      generateOpenAPISpec now' schema schemaName = Inl e) \<and>
   (generateOpenAPISpec now schema schemaName = Inr d \<longrightarrow>
      (\<exists>d'. generateOpenAPISpec now' schema schemaName = Inr d'
          \<and> (\<forall>k. k \<noteq> ''info'' \<longrightarrow> js_get d' k = js_get d k)
          \<and> (\<forall>k. k \<noteq> ''description'' \<longrightarrow>
                 js_get (js_get d' ''info'') k = js_get (js_get d ''info'') k)
          \<and> js_get (js_get d ''info'') ''description'' = JStr (info_description now schema)
          \<and> js_get (js_get d' ''info'') ''description'' = JStr (info_description now' schema)))"
proof (intro conjI impI)
  assume "generateOpenAPISpec now schema schemaName = Inl e"
  then show "generateOpenAPISpec now' schema schemaName = Inl e"
    by (auto simp: generateOpenAPISpec_def Let_def split: sum.splits prod.splits)
next
  assume "generateOpenAPISpec now schema schemaName = Inr d"
  then obtain schemas paths tags where
    d: "d = openapi_document now schema schemas paths tags" and
    d': "generateOpenAPISpec now' schema schemaName
           = Inr (openapi_document now' schema schemas paths tags)"
    by (auto simp: generateOpenAPISpec_def Let_def split: sum.splits prod.splits)
  have "(\<forall>k. k \<noteq> ''info'' \<longrightarrow>
            js_get (openapi_document now' schema schemas paths tags) k = js_get d k)"
    unfolding d by (simp add: openapi_document_def)
  moreover have "(\<forall>k. k \<noteq> ''description'' \<longrightarrow>
            js_get (js_get (openapi_document now' schema schemas paths tags) ''info'') k
              = js_get (js_get d ''info'') k)"
    unfolding d by (simp add: openapi_document_def)
  moreover have "js_get (js_get d ''info'') ''description'' = JStr (info_description now schema)"
    unfolding d by (simp add: openapi_document_def)
  moreover have "js_get (js_get (openapi_document now' schema schemas paths tags) ''info'')
                   ''description'' = JStr (info_description now' schema)"
    by (simp add: openapi_document_def)
  ultimately show "\<exists>d'. generateOpenAPISpec now' schema schemaName = Inr d'
          \<and> (\<forall>k. k \<noteq> ''info'' \<longrightarrow> js_get d' k = js_get d k)
          \<and> (\<forall>k. k \<noteq> ''description'' \<longrightarrow>
                 js_get (js_get d' ''info'') k = js_get (js_get d ''info'') k)
          \<and> js_get (js_get d ''info'') ''description'' = JStr (info_description now schema)
          \<and> js_get (js_get d' ''info'') ''description'' = JStr (info_description now' schema)"
    using d' by blast
qed

theorem generateOpenAPISpec_clock_witness:
  "\<exists>d d'. generateOpenAPISpec ''2025-03-01T10:00:00.000Z'' sample_schema (JStr ''MOODLE_405_STABLE'') = Inr d
     \<and> generateOpenAPISpec ''2025-03-01T10:00:07.250Z'' sample_schema (JStr ''MOODLE_405_STABLE'') = Inr d'
     \<and> js_get d' ''paths'' = js_get d ''paths''
     \<and> js_get d' ''components'' = js_get d ''components''
     \<and> js_get (js_get d' ''info'') ''version'' = js_get (js_get d ''info'') ''version''"
proof -
  have "\<not> isl (generateOpenAPISpec ''2025-03-01T10:00:00.000Z'' sample_schema (JStr ''MOODLE_405_STABLE''))"
    by code_simp
  then obtain d where
    d: "generateOpenAPISpec ''2025-03-01T10:00:00.000Z'' sample_schema (JStr ''MOODLE_405_STABLE'') = Inr d"
    by (cases "generateOpenAPISpec ''2025-03-01T10:00:00.000Z'' sample_schema (JStr ''MOODLE_405_STABLE'')")
       auto
  show ?thesis
    using generateOpenAPISpec_clock
      [where now = "''2025-03-01T10:00:00.000Z''" and now' = "''2025-03-01T10:00:07.250Z''"
         and schema = sample_schema and schemaName = "JStr ''MOODLE_405_STABLE''" and d = d] d
    by auto
qed

text \<open>Two calls on the empty schema document, a second apart, return different documents.\<close>

theorem generateOpenAPISpec_depends_on_clock:
  "generateOpenAPISpec ''2025-03-01T10:00:00.000Z'' (JObj []) (JStr ''MOODLE_405_STABLE'')
     \<noteq> generateOpenAPISpec ''2025-03-01T10:00:01.000Z'' (JObj []) (JStr ''MOODLE_405_STABLE'')"
  by (simp add: generateOpenAPISpec_def generateTags_def js_or_def openapi_document_def
      info_description_def)

end
